theory Spec2Isabelle
  imports Complex_Main "HOL-Library.Sublist"
begin

section \<open>Python values, objects and exceptions\<close>

text \<open>
  The bridge of \<^verbatim>\<open>Content/Python/init_unreal.py\<close>: a lock-protected queue per lane, an
  execution context per request, the dispatcher \<^verbatim>\<open>_execute_context\<close>, the tick callback
  and the HTTP handler.

  Values that arrive in a request body are the results of \<^verbatim>\<open>json.loads\<close>. A float is
  a finite value, carried as the real number it denotes (rounding to binary64 is not
  modelled), an infinity (\<^verbatim>\<open>Infinity\<close>, or a literal such as \<^verbatim>\<open>1e400\<close>) or not a number.
  A parsed JSON object is an association list read with \<open>map_of\<close>.
\<close>

datatype pyfloat = Finite real | PosInf | NegInf | NaN

datatype json =
    JNull
  | JBool bool
  | JInt int
  | JFloat pyfloat
  | JStr string
  | JArr "json list"
  | JObj "(string \<times> json) list"

text \<open>
  Every Python value the payload can reach is an object with an identity. The heap is
  the list of all such objects, an address is an index into it, and \<^verbatim>\<open>a is b\<close> is
  equality of addresses. The heap also stands for the host state behind the
  \<^verbatim>\<open>unreal\<close> module.
\<close>

type_synonym addr = nat

datatype pyobj = PyData json | PyModule string

type_synonym heap = "pyobj list"

type_synonym namespace = "string \<rightharpoonup> addr"

definition unreal_module :: addr where
  "unreal_module = 0"

definition initial_heap :: heap where
  "initial_heap = [PyModule ''unreal'']"

definition heap_new :: "pyobj \<Rightarrow> heap \<Rightarrow> addr \<times> heap" where
  "heap_new ob h = (length h, h @ [ob])"

text \<open>
  An exception raised by a payload: whether it is an instance of \<^verbatim>\<open>Exception\<close> (what
  \<^verbatim>\<open>except Exception\<close> catches) or only of \<^verbatim>\<open>BaseException\<close> (\<^verbatim>\<open>SystemExit\<close>,
  \<^verbatim>\<open>KeyboardInterrupt\<close>, a class of the payload's own), its type name, its message and
  the text of its stack frames.
\<close>

datatype exc_base = Exception | BaseException

datatype py_exc = PyExc (base: exc_base) (type_name: string) (message: string) (frames: string)

text \<open>
  \<^verbatim>\<open>traceback.format_exc()\<close> of the standard library, for the exception being handled:
  the header line, the frames, and the line of the exception itself.
\<close>

definition format_exc :: "py_exc \<Rightarrow> string" where
  "format_exc e =
     ''Traceback (most recent call last):'' @ [CHR 0x0A] @ frames e @ type_name e @
     (if message e = [] then [] else '': '' @ message e) @ [CHR 0x0A]"

text \<open>
  The interpreter \<^verbatim>\<open>exec(script, namespace)\<close> is the injected, opaque capability: from
  the script, the namespace and the heap it either returns, leaving a namespace and a
  heap, or raises, leaving a heap. A payload acts on the namespace and the heap only:
  it is given no reference to a queue or to an execution context. The other library
  functions the handler calls are parameters as well: \<^verbatim>\<open>float\<close> on a string, and
  \<^verbatim>\<open>str\<close>; so is the platform's \<^verbatim>\<open>threading.TIMEOUT_MAX\<close>.
\<close>

datatype exec_outcome = Returned namespace heap | Raised py_exc heap

type_synonym interpreter = "json \<Rightarrow> namespace \<Rightarrow> heap \<Rightarrow> exec_outcome"

record pylib =
  exec_py :: interpreter
  str_to_float :: "string \<Rightarrow> pyfloat option"
  py_str :: "json \<Rightarrow> string"
  timeout_max :: real

datatype py_error = AttributeError | TypeError | ValueError | OverflowError

text \<open>
  \<^verbatim>\<open>float(x)\<close> for a parsed JSON value \<open>x\<close>. An integer converts unless it rounds to
  \<open>2 ^ 1024\<close>, which raises \<^verbatim>\<open>OverflowError\<close>.
\<close>

definition py_float :: "(string \<Rightarrow> pyfloat option) \<Rightarrow> json \<Rightarrow> py_error + pyfloat" where
  "py_float s2f x =
     (case x of
        JNull \<Rightarrow> Inl TypeError
      | JBool b \<Rightarrow> Inr (Finite (if b then 1 else 0))
      | JInt n \<Rightarrow>
          if 2 ^ 1024 - 2 ^ 970 \<le> \<bar>n\<bar> then Inl OverflowError else Inr (Finite (of_int n))
      | JFloat r \<Rightarrow> Inr r
      | JStr s \<Rightarrow> (case s2f s of None \<Rightarrow> Inl ValueError | Some r \<Rightarrow> Inr r)
      | JArr _ \<Rightarrow> Inl TypeError
      | JObj _ \<Rightarrow> Inl TypeError)"

definition dict_get :: "(string \<times> json) list \<Rightarrow> string \<Rightarrow> json \<Rightarrow> json" where
  "dict_get d k dflt = (case map_of d k of None \<Rightarrow> dflt | Some v \<Rightarrow> v)"


section \<open>Thread-safe queue\<close>

text \<open>
  \<^verbatim>\<open>class ThreadSafeQueue\<close>. Every method body runs under \<^verbatim>\<open>self._lock\<close>, so a method
  call is one atomic step and a concurrent execution is a sequence of such steps.
\<close>

record 'a ThreadSafeQueue =
  items :: "'a list"

definition ThreadSafeQueue_init :: "'a ThreadSafeQueue" where
  "ThreadSafeQueue_init = \<lparr>items = []\<rparr>"

definition push :: "'a \<Rightarrow> 'a ThreadSafeQueue \<Rightarrow> 'a ThreadSafeQueue" where
  "push item q = q\<lparr>items := items q @ [item]\<rparr>"

definition drain :: "'a ThreadSafeQueue \<Rightarrow> 'a list \<times> 'a ThreadSafeQueue" where
  "drain q = (items q, q\<lparr>items := []\<rparr>)"

definition len :: "'a ThreadSafeQueue \<Rightarrow> nat" where
  "len q = length (items q)"

text \<open>
  A history of calls on one queue. \<open>run_ops\<close> returns the batches the drains returned,
  in call order, and the queue at the end; \<open>pushed\<close> is the sequence of pushed items.
\<close>

datatype 'a queue_op = Push 'a | Drain

fun run_ops :: "'a queue_op list \<Rightarrow> 'a ThreadSafeQueue \<Rightarrow> 'a list list \<times> 'a ThreadSafeQueue" where
  "run_ops [] q = ([], q)"
| "run_ops (Push x # ops) q = run_ops ops (push x q)"
| "run_ops (Drain # ops) q =
     (let (b, q') = drain q; (bs, q'') = run_ops ops q' in (b # bs, q''))"

fun pushed :: "'a queue_op list \<Rightarrow> 'a list" where
  "pushed [] = []"
| "pushed (Push x # ops) = x # pushed ops"
| "pushed (Drain # ops) = pushed ops"


section \<open>Execution context\<close>

text \<open>
  \<^verbatim>\<open>threading.Event\<close>: the flag, and as a history variable the number of \<^verbatim>\<open>set()\<close> calls
  so far, which no function reads. The program never calls \<^verbatim>\<open>clear()\<close>.
\<close>

record Event =
  flag :: bool
  set_calls :: nat

definition Event_init :: Event where
  "Event_init = \<lparr>flag = False, set_calls = 0\<rparr>"

definition Event_set :: "Event \<Rightarrow> Event" where
  "Event_set e = e\<lparr>flag := True, set_calls := Suc (set_calls e)\<rparr>"

record ExecutionContext =
  script :: json
  params :: addr
  timeout :: pyfloat
  result :: addr
  error :: "string option"
  done_ev :: Event

text \<open>\<^verbatim>\<open>__init__\<close>: \<^verbatim>\<open>self.result = {}\<close> creates a new, empty dict.\<close>

definition ExecutionContext_init ::
  "json \<Rightarrow> addr \<Rightarrow> pyfloat \<Rightarrow> heap \<Rightarrow> ExecutionContext \<times> heap" where
  "ExecutionContext_init s p t h =
     (let (r, h') = heap_new (PyData (JObj [])) h
      in (\<lparr>script = s, params = p, timeout = t, result = r, error = None,
            done_ev = Event_init\<rparr>, h'))"

text \<open>
  \<^verbatim>\<open>threading.Event.wait(timeout)\<close> of the standard library, for a call that ends while
  the flag is as in the event given. With the flag set it returns \<^verbatim>\<open>True\<close>, whatever the
  timeout. With the flag unset: a timeout that is not positive (or not a number) makes a
  call that does not block and returns \<^verbatim>\<open>False\<close>; a timeout above the platform's
  \<^verbatim>\<open>TIMEOUT_MAX\<close> is refused with \<^verbatim>\<open>OverflowError\<close>; on any other the call has blocked
  until the timeout elapsed and returns \<^verbatim>\<open>False\<close>.
\<close>

definition Event_wait :: "real \<Rightarrow> pyfloat \<Rightarrow> Event \<Rightarrow> py_error + bool" where
  "Event_wait tmax t ev =
     (if flag ev then Inr True
      else case t of
             Finite r \<Rightarrow>
               if r \<le> 0 then Inr False else if tmax < r then Inl OverflowError else Inr False
           | PosInf \<Rightarrow> Inl OverflowError
           | NegInf \<Rightarrow> Inr False
           | NaN \<Rightarrow> Inr False)"

text \<open>
  \<^verbatim>\<open>wait\<close>: \<open>waited\<close> is what the call \<^verbatim>\<open>self.done.wait(timeout=self.timeout)\<close> did:
  it raised, or it returned \<^verbatim>\<open>True\<close> (signalled) or \<^verbatim>\<open>False\<close> (the timeout elapsed).
  An exception of that call leaves \<^verbatim>\<open>wait\<close>; otherwise the method returns \<^verbatim>\<open>self\<close>.
  \<open>timeout_text\<close> is the f-string of line 77.
\<close>

definition timeout_text :: "(json \<Rightarrow> string) \<Rightarrow> pyfloat \<Rightarrow> string" where
  "timeout_text pstr t = ''Execution timed out after '' @ pstr (JFloat t) @ ''s''"

definition wait ::
  "(json \<Rightarrow> string) \<Rightarrow> py_error + bool \<Rightarrow> ExecutionContext \<Rightarrow> py_error + ExecutionContext" where
  "wait pstr waited self =
     (case waited of
        Inl e \<Rightarrow> Inl e
      | Inr signalled \<Rightarrow>
          if \<not> signalled
          then Inr (self\<lparr>error := Some (timeout_text pstr (timeout self))\<rparr>)
          else Inr self)"

text \<open>
  \<^verbatim>\<open>to_response\<close> returns the response dict and the context as the call leaves it.
  \<^verbatim>\<open>if self.error:\<close> tests truth: \<^verbatim>\<open>None\<close> and the empty string are false.
\<close>

datatype response = Success addr | Failure string

definition to_response :: "ExecutionContext \<Rightarrow> response \<times> ExecutionContext" where
  "to_response self =
     (case error self of
        None \<Rightarrow> (Success (result self), self)
      | Some e \<Rightarrow> if e \<noteq> [] then (Failure e, self) else (Success (result self), self))"


section \<open>Dispatcher and tick callback\<close>

definition seed_namespace :: "ExecutionContext \<Rightarrow> namespace" where
  "seed_namespace ctx =
     [''unreal'' \<mapsto> unreal_module, ''params'' \<mapsto> params ctx, ''result'' \<mapsto> result ctx]"

text \<open>
  \<^verbatim>\<open>_execute_context\<close> returns the context, the heap, and the exception that leaves the
  function, if one does: \<^verbatim>\<open>except Exception\<close> lets an exception that is not an
  \<^verbatim>\<open>Exception\<close> pass, after the \<^verbatim>\<open>finally\<close> block has run. The test for a rebound
  \<^verbatim>\<open>result\<close> is a lookup in a plain dict and a comparison of identities, which raise
  nothing; it stands in the same \<^verbatim>\<open>try\<close> as the call of the interpreter.
\<close>

definition execute_context ::
  "interpreter \<Rightarrow> ExecutionContext \<Rightarrow> heap \<Rightarrow> ExecutionContext \<times> heap \<times> py_exc option" where
  "execute_context ex ctx h =
     (case ex (script ctx) (seed_namespace ctx) h of
        Returned ns h' \<Rightarrow>
          (let ctx1 = (case ns ''result'' of
                         None \<Rightarrow> ctx
                       | Some a \<Rightarrow> if a \<noteq> result ctx then ctx\<lparr>result := a\<rparr> else ctx)
           in (ctx1\<lparr>done_ev := Event_set (done_ev ctx1)\<rparr>, h', None))
      | Raised e h' \<Rightarrow>
          (case base e of
             Exception \<Rightarrow>
               (let ctx1 = ctx\<lparr>error := Some (format_exc e)\<rparr>
                in (ctx1\<lparr>done_ev := Event_set (done_ev ctx1)\<rparr>, h', None))
           | BaseException \<Rightarrow> (ctx\<lparr>done_ev := Event_set (done_ev ctx)\<rparr>, h', Some e)))"

text \<open>
  The module's state: the two global queues, which hold references to contexts; the
  contexts by reference (\<open>next_cid\<close> is the first reference not yet given out); the heap.
\<close>

type_synonym cid = nat

record state =
  editor_queue :: "cid ThreadSafeQueue"
  game_queue :: "cid ThreadSafeQueue"
  ctxs :: "cid \<Rightarrow> ExecutionContext"
  next_cid :: cid
  pyheap :: heap

definition initial_state :: state where
  "initial_state =
     \<lparr>editor_queue = ThreadSafeQueue_init, game_queue = ThreadSafeQueue_init,
      ctxs = (\<lambda>_. \<lparr>script = JNull, params = 0, timeout = Finite 0, result = 0, error = None,
                    done_ev = Event_init\<rparr>),
      next_cid = 0, pyheap = initial_heap\<rparr>"

datatype lane = Editor | Game

definition queue_of :: "lane \<Rightarrow> state \<Rightarrow> cid ThreadSafeQueue" where
  "queue_of l st = (case l of Editor \<Rightarrow> editor_queue st | Game \<Rightarrow> game_queue st)"

definition set_queue :: "lane \<Rightarrow> cid ThreadSafeQueue \<Rightarrow> state \<Rightarrow> state" where
  "set_queue l q st = (case l of Editor \<Rightarrow> st\<lparr>editor_queue := q\<rparr> | Game \<Rightarrow> st\<lparr>game_queue := q\<rparr>)"

text \<open>
  The \<^verbatim>\<open>for\<close> loop of \<^verbatim>\<open>_drain_queue\<close> over a drained batch. An exception that leaves
  \<^verbatim>\<open>_execute_context\<close> leaves the loop.
\<close>

fun run_batch :: "interpreter \<Rightarrow> cid list \<Rightarrow> state \<Rightarrow> state \<times> py_exc option" where
  "run_batch ex [] st = (st, None)"
| "run_batch ex (c # cs) st =
     (case execute_context ex (ctxs st c) (pyheap st) of
        (ctx', h', None) \<Rightarrow> run_batch ex cs (st\<lparr>ctxs := (ctxs st)(c := ctx'), pyheap := h'\<rparr>)
      | (ctx', h', Some e) \<Rightarrow> (st\<lparr>ctxs := (ctxs st)(c := ctx'), pyheap := h'\<rparr>, Some e))"

definition drain_queue :: "interpreter \<Rightarrow> lane \<Rightarrow> state \<Rightarrow> state \<times> py_exc option" where
  "drain_queue ex l st =
     (let (batch, q') = drain (queue_of l st) in run_batch ex batch (set_queue l q' st))"

definition on_slate_post_tick :: "interpreter \<Rightarrow> state \<Rightarrow> state \<times> py_exc option" where
  "on_slate_post_tick ex st =
     (case drain_queue ex Editor st of
        (st1, Some e) \<Rightarrow> (st1, Some e)
      | (st1, None) \<Rightarrow> drain_queue ex Game st1)"


section \<open>HTTP request handler\<close>

text \<open>
  A request: its path, and what \<^verbatim>\<open>json.loads(self.rfile.read(length))\<close> gave, either
  the text of the exception caught by the first \<^verbatim>\<open>try\<close> or the parsed value.

  \<^verbatim>\<open>do_POST\<close> runs beside the game thread, with no lock but the queues' own, so it is
  three steps between which the game thread may tick: \<open>do_POST_begin\<close> up to the push
  (lines 153 to 182), \<open>do_POST_wait\<close> for the call \<^verbatim>\<open>ctx.wait()\<close> (line 184) at the
  moment it ends, and \<open>do_POST_respond\<close> for \<^verbatim>\<open>ctx.to_response()\<close> and the response
  (lines 186 and 187). A step ends with a response, or with an exception nothing in the
  handler catches (the server then closes the connection without a response), or leaves
  the handler before its next step.
\<close>

record request =
  path :: string
  body :: "string + json"

datatype http_body = ErrorBody string | OutcomeBody response

datatype post_result = Responded nat http_body | Unhandled py_error | Enqueued cid | Waited cid

definition do_POST_begin :: "pylib \<Rightarrow> request \<Rightarrow> state \<Rightarrow> post_result \<times> state" where
  "do_POST_begin lib req st =
     (if path req \<noteq> ''/execute'' then (Responded 404 (ErrorBody ''Not found''), st)
      else case body req of
        Inl e \<Rightarrow> (Responded 400 (OutcomeBody (Failure (''Bad request: '' @ e))), st)
      | Inr (JObj d) \<Rightarrow>
          (let mode = dict_get d ''mode'' (JStr ''editor'');
               scr = dict_get d ''script'' (JStr '''');
               par = dict_get d ''params'' (JObj [])
           in case py_float (str_to_float lib) (dict_get d ''timeout'' (JInt 30)) of
                Inl err \<Rightarrow> (Unhandled err, st)
              | Inr tmo \<Rightarrow>
                  if mode \<noteq> JStr ''editor'' \<and> mode \<noteq> JStr ''game''
                  then (Responded 400 (OutcomeBody (Failure
                          (''Unknown mode: '' @ py_str lib mode @ ''. Use 'editor' or 'game'.''))), st)
                  else
                    (let (p, h1) = heap_new (PyData par) (pyheap st);
                         (ctx, h2) = ExecutionContext_init scr p tmo h1;
                         c = next_cid st;
                         st1 = st\<lparr>ctxs := (ctxs st)(c := ctx), next_cid := Suc c, pyheap := h2\<rparr>
                     in (Enqueued c,
                         if mode = JStr ''editor''
                         then st1\<lparr>editor_queue := push c (editor_queue st1)\<rparr>
                         else st1\<lparr>game_queue := push c (game_queue st1)\<rparr>)))
      | Inr _ \<Rightarrow> (Unhandled AttributeError, st))"

definition do_POST_wait :: "pylib \<Rightarrow> cid \<Rightarrow> state \<Rightarrow> post_result \<times> state" where
  "do_POST_wait lib c st =
     (case wait (py_str lib)
             (Event_wait (timeout_max lib) (timeout (ctxs st c)) (done_ev (ctxs st c)))
             (ctxs st c) of
        Inl e \<Rightarrow> (Unhandled e, st)
      | Inr ctx' \<Rightarrow> (Waited c, st\<lparr>ctxs := (ctxs st)(c := ctx')\<rparr>))"

definition do_POST_respond :: "cid \<Rightarrow> state \<Rightarrow> post_result \<times> state" where
  "do_POST_respond c st =
     (let (resp, ctx') = to_response (ctxs st c)
      in (Responded 200 (OutcomeBody resp), st\<lparr>ctxs := (ctxs st)(c := ctx')\<rparr>))"

text \<open>
  The steps of the running module: a request arrives and is handled up to its push;
  the \<^verbatim>\<open>wait\<close> call of the handler of a created context ends; the handler of a created
  context builds its response; the host ticks. Every order of these steps is a run.
\<close>

datatype event = Post request | WaitReturns cid | Responds cid | Tick

fun step :: "pylib \<Rightarrow> event \<Rightarrow> state \<Rightarrow> state" where
  "step lib (Post r) st = snd (do_POST_begin lib r st)"
| "step lib (WaitReturns c) st = (if c < next_cid st then snd (do_POST_wait lib c st) else st)"
| "step lib (Responds c) st = (if c < next_cid st then snd (do_POST_respond c st) else st)"
| "step lib Tick st = fst (on_slate_post_tick (exec_py lib) st)"

fun run :: "pylib \<Rightarrow> event list \<Rightarrow> state \<Rightarrow> state" where
  "run lib [] st = st"
| "run lib (e # es) st = run lib es (step lib e st)"


section \<open>Relations between states, and a sample interpreter\<close>

text \<open>
  How a context may change over time: a set flag stays set, an error that is not
  \<^verbatim>\<open>None\<close> stays so, and no empty error text appears.
\<close>

definition evolves :: "ExecutionContext \<Rightarrow> ExecutionContext \<Rightarrow> bool" where
  "evolves c c' \<longleftrightarrow>
     (flag (done_ev c) \<longrightarrow> flag (done_ev c')) \<and>
     (error c \<noteq> None \<longrightarrow> error c' \<noteq> None) \<and>
     (error c \<noteq> Some [] \<longrightarrow> error c' \<noteq> Some [])"

text \<open>The references held by the two queues, and the bookkeeping of \<^verbatim>\<open>set()\<close> calls.\<close>

definition queued :: "state \<Rightarrow> cid list" where
  "queued st = items (editor_queue st) @ items (game_queue st)"

definition once_inv :: "state \<Rightarrow> bool" where
  "once_inv st \<longleftrightarrow>
     distinct (queued st) \<and>
     (\<forall>c \<in> set (queued st). c < next_cid st \<and> set_calls (done_ev (ctxs st c)) = 0) \<and>
     (\<forall>c. set_calls (done_ev (ctxs st c)) \<le> 1 \<and>
          (flag (done_ev (ctxs st c)) \<longleftrightarrow> set_calls (done_ev (ctxs st c)) = 1))"


text \<open>
  An interpreter for four scripts, used to run the definitions on concrete requests:
  one mutates the result dict in place, one rebinds \<^verbatim>\<open>result\<close>, one raises an
  \<^verbatim>\<open>Exception\<close>, one raises \<^verbatim>\<open>SystemExit\<close>; every other script does nothing.
\<close>

definition sample_exec :: interpreter where
  "sample_exec scr ns h =
     (if scr = JStr ''result.update(x=1+1)'' then
        (case ns ''result'' of
           Some a \<Rightarrow> Returned ns (h[a := PyData (JObj [(''x'', JInt 2)])])
         | None \<Rightarrow> Raised (PyExc Exception ''NameError'' ''name result is not defined'' []) h)
      else if scr = JStr ''result = 5'' then
        Returned (ns(''result'' \<mapsto> length h)) (h @ [PyData (JInt 5)])
      else if scr = JStr ''1/0'' then
        Raised (PyExc Exception ''ZeroDivisionError'' ''division by zero'' []) h
      else if scr = JStr ''raise SystemExit'' then
        Raised (PyExc BaseException ''SystemExit'' [] []) h
      else Returned ns h)"

definition sample_lib :: pylib where
  "sample_lib =
     \<lparr>exec_py = sample_exec, str_to_float = (\<lambda>_. None),
      py_str = (\<lambda>j. case j of JStr s \<Rightarrow> s | _ \<Rightarrow> ''30.0''),
      timeout_max = 9223372036\<rparr>"

definition post :: "(string \<times> json) list \<Rightarrow> request" where
  "post d = \<lparr>path = ''/execute'', body = Inr (JObj d)\<rparr>"

definition sample_heap :: heap where
  "sample_heap = [PyModule ''unreal'', PyData (JObj []), PyData (JObj [])]"

definition sample_ctx :: "json \<Rightarrow> ExecutionContext" where
  "sample_ctx s =
     \<lparr>script = s, params = 1, timeout = Finite 30, result = 2, error = None,
      done_ev = Event_init\<rparr>"


section \<open>The queue is first-in first-out and drains each command once\<close>

lemma run_ops_Drain:
  "run_ops (Drain # ops) q =
     (items q # fst (run_ops ops (q\<lparr>items := []\<rparr>)), snd (run_ops ops (q\<lparr>items := []\<rparr>)))"
  by (simp add: drain_def split: prod.splits)

lemma run_ops_concat:
  "concat (fst (run_ops ops q)) @ items (snd (run_ops ops q)) = items q @ pushed ops"
proof (induction ops arbitrary: q)
  case Nil
  then show ?case by simp
next
  case (Cons a ops)
  show ?case
  proof (cases a)
    case (Push x)
    then show ?thesis using Cons [of "push x q"] by (simp add: push_def)
  next
    case Drain
    then show ?thesis using Cons [of "q\<lparr>items := []\<rparr>"] by (simp add: run_ops_Drain del: run_ops.simps(3))
  qed
qed

lemma run_ops_append:
  "run_ops (ops1 @ ops2) q =
     (fst (run_ops ops1 q) @ fst (run_ops ops2 (snd (run_ops ops1 q))),
      snd (run_ops ops2 (snd (run_ops ops1 q))))"
proof (induction ops1 arbitrary: q)
  case Nil
  then show ?case by simp
next
  case (Cons a ops1)
  show ?case
  proof (cases a)
    case (Push x)
    then show ?thesis using Cons [of "push x q"] by simp
  next
    case Drain
    then show ?thesis using Cons [of "q\<lparr>items := []\<rparr>"] by (simp add: run_ops_Drain del: run_ops.simps(3))
  qed
qed

lemma run_ops_drains:
  "items (snd (run_ops (Drain # replicate n Drain) q)) = []"
proof (induction n arbitrary: q)
  case 0
  then show ?case by (simp add: run_ops_Drain del: run_ops.simps(3))
next
  case (Suc n)
  then show ?case using Suc [of "q\<lparr>items := []\<rparr>"]
    by (simp add: run_ops_Drain del: run_ops.simps(3))
qed

lemma pushed_append: "pushed (ops1 @ ops2) = pushed ops1 @ pushed ops2"
  by (induction ops1 rule: pushed.induct) simp_all

text \<open>
  C1. For every sequence of pushes and drains on one queue, from any starting backlog:
  the batches the drains returned, one after the other, followed by what is still
  queued, are the backlog and the pushed commands in push order; once a drain has
  followed the last push, the batches alone are; when the commands are distinct objects
  none occurs twice in the batches (neither twice in one drain nor in two drains); after
  a drain the length is zero, and stays zero over further drains until a push.
\<close>

theorem queue_fifo_exactly_once:
  "concat (fst (run_ops ops q)) @ items (snd (run_ops ops q)) = items q @ pushed ops
   \<and> concat (fst (run_ops (ops @ [Drain]) q)) = items q @ pushed ops
   \<and> (distinct (items q @ pushed ops) \<longrightarrow> distinct (concat (fst (run_ops ops q))))
   \<and> len (snd (run_ops (ops @ Drain # replicate n Drain) q)) = 0
   \<and> fst (drain q) = items q \<and> len (snd (drain q)) = 0"
proof -
  have a: "concat (fst (run_ops ops q)) @ items (snd (run_ops ops q)) = items q @ pushed ops"
    by (rule run_ops_concat)
  have "concat (fst (run_ops (ops @ [Drain]) q)) @ items (snd (run_ops (ops @ [Drain]) q))
        = items q @ pushed (ops @ [Drain])"
    by (rule run_ops_concat)
  moreover have "items (snd (run_ops (ops @ [Drain]) q)) = []"
    using run_ops_drains [of 0 "snd (run_ops ops q)"] by (simp add: run_ops_append del: run_ops.simps(3))
  ultimately have b: "concat (fst (run_ops (ops @ [Drain]) q)) = items q @ pushed ops"
    by (simp add: pushed_append)
  have c: "distinct (items q @ pushed ops) \<longrightarrow> distinct (concat (fst (run_ops ops q)))"
  proof
    assume "distinct (items q @ pushed ops)"
    then have "distinct (concat (fst (run_ops ops q)) @ items (snd (run_ops ops q)))"
      using a by simp
    then show "distinct (concat (fst (run_ops ops q)))" by simp
  qed
  have d: "len (snd (run_ops (ops @ Drain # replicate n Drain) q)) = 0"
    unfolding len_def using run_ops_drains [of n "snd (run_ops ops q)"]
    by (simp add: run_ops_append del: run_ops.simps(3))
  show ?thesis using a b c d by (simp add: drain_def len_def)
qed

theorem queue_fifo_exactly_once_witness:
  "run_ops [Push (1::nat), Push 2, Drain, Push 3, Drain, Drain, Push 4] ThreadSafeQueue_init
     = ([[1, 2], [3], []], \<lparr>items = [4]\<rparr>)
   \<and> distinct (items ThreadSafeQueue_init @ pushed [Push (1::nat), Push 2, Drain, Push 3, Drain, Drain, Push 4])
   \<and> distinct (concat (fst (run_ops [Push (1::nat), Push 2, Drain, Push 3, Drain, Drain, Push 4] ThreadSafeQueue_init)))"
  using queue_fifo_exactly_once [of "[Push (1::nat), Push 2, Drain, Push 3, Drain, Drain, Push 4]" ThreadSafeQueue_init 0]
  by (simp add: ThreadSafeQueue_init_def push_def drain_def)


section \<open>The dispatcher\<close>

lemma format_exc_nonempty: "format_exc e \<noteq> []"
  by (simp add: format_exc_def)


lemma execute_context_caught:
  assumes "ex (script ctx) (seed_namespace ctx) h = Raised e h'" and "base e = Exception"
  shows "execute_context ex ctx h =
           (ctx\<lparr>error := Some (format_exc e), done_ev := Event_set (done_ev ctx)\<rparr>, h', None)"
  using assms by (simp add: execute_context_def Let_def)


lemma execute_context_done:
  "done_ev (fst (execute_context ex ctx h)) = Event_set (done_ev ctx)"
  by (simp add: execute_context_def Let_def split: exec_outcome.splits option.splits exc_base.splits)

lemma execute_context_error:
  "error (fst (execute_context ex ctx h)) =
     (case ex (script ctx) (seed_namespace ctx) h of
        Returned ns h' \<Rightarrow> error ctx
      | Raised e h' \<Rightarrow> (case base e of Exception \<Rightarrow> Some (format_exc e) | BaseException \<Rightarrow> error ctx))"
  by (simp add: execute_context_def Let_def split: exec_outcome.splits option.splits exc_base.splits)

lemma execute_context_evolves: "evolves ctx (fst (execute_context ex ctx h))"
  by (simp add: evolves_def execute_context_done execute_context_error Event_set_def format_exc_nonempty
      split: exec_outcome.splits exc_base.splits)

lemma wait_evolves: "wait pstr w ctx = Inr ctx' \<Longrightarrow> evolves ctx ctx'"
  by (auto simp: evolves_def wait_def timeout_text_def split: sum.splits if_splits)

lemma to_response_self: "snd (to_response ctx) = ctx"
  by (simp add: to_response_def split: option.splits)

lemma evolves_refl: "evolves c c"
  by (simp add: evolves_def)

lemma evolves_trans: "evolves a b \<Longrightarrow> evolves b c \<Longrightarrow> evolves a c"
  by (auto simp: evolves_def)




section \<open>The loop over a drained batch, and the tick\<close>

subsection \<open>The loop over a batch\<close>

lemma run_batch_step:
  "run_batch ex (c # cs) st =
     (let r = execute_context ex (ctxs st c) (pyheap st);
          st' = st\<lparr>ctxs := (ctxs st)(c := fst r), pyheap := fst (snd r)\<rparr>
      in case snd (snd r) of None \<Rightarrow> run_batch ex cs st' | Some e \<Rightarrow> (st', Some e))"
  by (simp add: Let_def split: prod.splits option.splits)

lemma run_batch_frame:
  "editor_queue (fst (run_batch ex cs st)) = editor_queue st
   \<and> game_queue (fst (run_batch ex cs st)) = game_queue st
   \<and> next_cid (fst (run_batch ex cs st)) = next_cid st"
proof (induction cs arbitrary: st)
  case Nil
  then show ?case by simp
next
  case (Cons c cs)
  show ?case
    unfolding run_batch_step Let_def
    by (cases "snd (snd (execute_context ex (ctxs st c) (pyheap st)))") (simp_all add: Cons)
qed

lemma run_batch_other:
  "c \<notin> set cs \<Longrightarrow> ctxs (fst (run_batch ex cs st)) c = ctxs st c"
proof (induction cs arbitrary: st)
  case Nil
  then show ?case by simp
next
  case (Cons d cs)
  then have "c \<noteq> d" and "c \<notin> set cs" by auto
  then show ?case
    unfolding run_batch_step Let_def
    by (cases "snd (snd (execute_context ex (ctxs st d) (pyheap st)))") (simp_all add: Cons.IH)
qed

lemma run_batch_evolves:
  "evolves (ctxs st c) (ctxs (fst (run_batch ex cs st)) c)"
proof (induction cs arbitrary: st)
  case Nil
  then show ?case by (simp add: evolves_refl)
next
  case (Cons d cs)
  let ?r = "execute_context ex (ctxs st d) (pyheap st)"
  let ?st = "st\<lparr>ctxs := (ctxs st)(d := fst ?r), pyheap := fst (snd ?r)\<rparr>"
  have first: "evolves (ctxs st c) (ctxs ?st c)"
    by (simp add: evolves_refl execute_context_evolves)
  show ?case
  proof (cases "snd (snd ?r)")
    case None
    then have "run_batch ex (d # cs) st = run_batch ex cs ?st"
      by (simp add: run_batch_step Let_def del: run_batch.simps)
    then have eq: "run_batch ex (d # cs) st = run_batch ex cs ?st" .
    have "evolves (ctxs ?st c) (ctxs (fst (run_batch ex cs ?st)) c)"
      by (rule Cons.IH)
    with first have "evolves (ctxs st c) (ctxs (fst (run_batch ex cs ?st)) c)"
      by (rule evolves_trans)
    then show ?thesis unfolding eq .
  next
    case (Some e)
    then have "run_batch ex (d # cs) st = (?st, Some e)"
      by (simp add: run_batch_step Let_def del: run_batch.simps)
    then show ?thesis using first by simp
  qed
qed

lemma run_batch_counted:
  assumes "distinct cs"
    and "\<forall>c \<in> set cs. set_calls (done_ev (ctxs st c)) = 0"
    and "\<forall>c. set_calls (done_ev (ctxs st c)) \<le> 1 \<and>
             (flag (done_ev (ctxs st c)) \<longleftrightarrow> set_calls (done_ev (ctxs st c)) = 1)"
  shows "\<forall>c. set_calls (done_ev (ctxs (fst (run_batch ex cs st)) c)) \<le> 1 \<and>
             (flag (done_ev (ctxs (fst (run_batch ex cs st)) c))
                \<longleftrightarrow> set_calls (done_ev (ctxs (fst (run_batch ex cs st)) c)) = 1)"
  using assms
proof (induction cs arbitrary: st)
  case Nil
  then show ?case by simp
next
  case (Cons d cs)
  let ?r = "execute_context ex (ctxs st d) (pyheap st)"
  let ?st = "st\<lparr>ctxs := (ctxs st)(d := fst ?r), pyheap := fst (snd ?r)\<rparr>"
  have d0: "set_calls (done_ev (ctxs st d)) = 0" using Cons.prems(2) by simp
  have counted: "\<forall>c. set_calls (done_ev (ctxs ?st c)) \<le> 1 \<and>
             (flag (done_ev (ctxs ?st c)) \<longleftrightarrow> set_calls (done_ev (ctxs ?st c)) = 1)"
    using Cons.prems(3) d0 by (simp add: execute_context_done Event_set_def)
  show ?case
  proof (cases "snd (snd ?r)")
    case None
    have eq: "run_batch ex (d # cs) st = run_batch ex cs ?st"
      using None by (simp add: run_batch_step Let_def del: run_batch.simps)
    have "distinct cs" and "d \<notin> set cs" using Cons.prems(1) by auto
    have zero: "\<forall>c \<in> set cs. set_calls (done_ev (ctxs ?st c)) = 0"
      using Cons.prems(2) \<open>d \<notin> set cs\<close> by auto
    have "\<forall>c. set_calls (done_ev (ctxs (fst (run_batch ex cs ?st)) c)) \<le> 1 \<and>
             (flag (done_ev (ctxs (fst (run_batch ex cs ?st)) c))
                \<longleftrightarrow> set_calls (done_ev (ctxs (fst (run_batch ex cs ?st)) c)) = 1)"
      using \<open>distinct cs\<close> zero counted by (rule Cons.IH)
    then show ?thesis unfolding eq .
  next
    case (Some e)
    then have "run_batch ex (d # cs) st = (?st, Some e)"
      by (simp add: run_batch_step Let_def del: run_batch.simps)
    then show ?thesis using counted by simp
  qed
qed

lemma run_batch_Nil_state: "run_batch ex [] st = (st, None)"
  by simp

subsection \<open>Draining a lane, and the tick\<close>

lemma queue_cleared: "(q :: 'a ThreadSafeQueue)\<lparr>items := []\<rparr> = \<lparr>items = []\<rparr>"
  by (cases q) simp

lemma drain_queue_eq:
  "drain_queue ex l st = run_batch ex (items (queue_of l st)) (set_queue l ((queue_of l st)\<lparr>items := []\<rparr>) st)"
  by (simp add: drain_queue_def drain_def)

lemma drain_queue_Editor:
  "drain_queue ex Editor st = run_batch ex (items (editor_queue st)) (st\<lparr>editor_queue := \<lparr>items = []\<rparr>\<rparr>)"
  by (simp add: drain_queue_eq queue_of_def set_queue_def queue_cleared)

lemma drain_queue_Game:
  "drain_queue ex Game st = run_batch ex (items (game_queue st)) (st\<lparr>game_queue := \<lparr>items = []\<rparr>\<rparr>)"
  by (simp add: drain_queue_eq queue_of_def set_queue_def queue_cleared)

lemma tick_eq:
  "on_slate_post_tick ex st =
     (let r = run_batch ex (items (editor_queue st)) (st\<lparr>editor_queue := \<lparr>items = []\<rparr>\<rparr>)
      in case snd r of
           Some e \<Rightarrow> r
         | None \<Rightarrow> run_batch ex (items (game_queue st)) ((fst r)\<lparr>game_queue := \<lparr>items = []\<rparr>\<rparr>))"
proof -
  let ?r = "run_batch ex (items (editor_queue st)) (st\<lparr>editor_queue := \<lparr>items = []\<rparr>\<rparr>)"
  have g: "game_queue (fst ?r) = game_queue st"
    using run_batch_frame [of ex "items (editor_queue st)" "st\<lparr>editor_queue := \<lparr>items = []\<rparr>\<rparr>"]
    by simp
  show ?thesis
  proof (cases "snd ?r")
    case None
    then obtain st1 where r: "?r = (st1, None)" by (cases ?r) auto
    with g have "game_queue st1 = game_queue st" by simp
    then show ?thesis
      by (simp add: on_slate_post_tick_def drain_queue_Editor drain_queue_Game Let_def r)
  next
    case (Some e)
    then obtain st1 where r: "?r = (st1, Some e)" by (cases ?r) auto
    show ?thesis
      by (simp add: on_slate_post_tick_def drain_queue_Editor Let_def r)
  qed
qed


section \<open>The request handler and the steps of the module\<close>

subsection \<open>The handler up to its push\<close>

lemma do_POST_begin_cases:
  "snd (do_POST_begin lib req st) = st \<and> (\<forall>c. fst (do_POST_begin lib req st) \<noteq> Enqueued c)
   \<or> (\<exists>ctx h b.
         fst (do_POST_begin lib req st) = Enqueued (next_cid st)
         \<and> error ctx = None \<and> done_ev ctx = Event_init
         \<and> snd (do_POST_begin lib req st) =
             (if b then st\<lparr>ctxs := (ctxs st)(next_cid st := ctx), next_cid := Suc (next_cid st),
                          pyheap := h,
                          editor_queue := push (next_cid st) (editor_queue st)\<rparr>
              else st\<lparr>ctxs := (ctxs st)(next_cid st := ctx), next_cid := Suc (next_cid st),
                       pyheap := h,
                       game_queue := push (next_cid st) (game_queue st)\<rparr>))"
proof (cases "path req \<noteq> ''/execute''")
  case True
  then show ?thesis by (simp add: do_POST_begin_def)
next
  case False
  note p = this
  show ?thesis
  proof (cases "body req")
    case (Inl e)
    then show ?thesis using p by (simp add: do_POST_begin_def)
  next
    case (Inr j)
    show ?thesis
    proof (cases "\<exists>d. j = JObj d")
      case False
      then show ?thesis using p Inr by (cases j) (simp_all add: do_POST_begin_def)
    next
      case True
      then obtain d where j: "j = JObj d" by blast
      show ?thesis
      proof (cases "py_float (str_to_float lib) (dict_get d ''timeout'' (JInt 30))")
        case (Inl err)
        then show ?thesis using p Inr j by (simp add: do_POST_begin_def Let_def)
      next
        case (Inr tmo)
        note t = this
        show ?thesis
        proof (cases "dict_get d ''mode'' (JStr ''editor'') \<noteq> JStr ''editor''
                       \<and> dict_get d ''mode'' (JStr ''editor'') \<noteq> JStr ''game''")
          case True
          then show ?thesis using p \<open>body req = Inr j\<close> j t
            by (simp add: do_POST_begin_def Let_def)
        next
          case False
          let ?ctx = "fst (ExecutionContext_init (dict_get d ''script'' (JStr ''''))
                        (fst (heap_new (PyData (dict_get d ''params'' (JObj []))) (pyheap st)))
                        tmo (snd (heap_new (PyData (dict_get d ''params'' (JObj []))) (pyheap st))))"
          let ?h = "snd (ExecutionContext_init (dict_get d ''script'' (JStr ''''))
                        (fst (heap_new (PyData (dict_get d ''params'' (JObj []))) (pyheap st)))
                        tmo (snd (heap_new (PyData (dict_get d ''params'' (JObj []))) (pyheap st))))"
          have c: "error ?ctx = None \<and> done_ev ?ctx = Event_init"
            by (simp add: ExecutionContext_init_def heap_new_def)
          have "fst (do_POST_begin lib req st) = Enqueued (next_cid st)
              \<and> snd (do_POST_begin lib req st) =
             (if dict_get d ''mode'' (JStr ''editor'') = JStr ''editor''
              then st\<lparr>ctxs := (ctxs st)(next_cid st := ?ctx), next_cid := Suc (next_cid st),
                          pyheap := ?h,
                          editor_queue := push (next_cid st) (editor_queue st)\<rparr>
              else st\<lparr>ctxs := (ctxs st)(next_cid st := ?ctx), next_cid := Suc (next_cid st),
                       pyheap := ?h,
                       game_queue := push (next_cid st) (game_queue st)\<rparr>)"
            using p \<open>body req = Inr j\<close> j t False
            by (auto simp add: do_POST_begin_def Let_def split: prod.splits)
          with c show ?thesis by blast
        qed
      qed
    qed
  qed
qed


lemma wait_done: "wait pstr w ctx = Inr ctx' \<Longrightarrow> done_ev ctx' = done_ev ctx"
  by (auto simp: wait_def split: sum.splits if_splits)


lemma do_POST_wait_cases:
  "(\<exists>e. do_POST_wait lib c st = (Unhandled e, st))
   \<or> (\<exists>ctx'. wait (py_str lib)
                (Event_wait (timeout_max lib) (timeout (ctxs st c)) (done_ev (ctxs st c)))
                (ctxs st c) = Inr ctx'
              \<and> do_POST_wait lib c st = (Waited c, st\<lparr>ctxs := (ctxs st)(c := ctx')\<rparr>))"
  by (simp add: do_POST_wait_def split: sum.splits)

lemma do_POST_respond_state: "snd (do_POST_respond c st) = st"
  by (simp add: do_POST_respond_def to_response_def split: option.splits)


subsection \<open>The tick, context by context\<close>

lemma tick_evolves: "evolves (ctxs st c) (ctxs (fst (on_slate_post_tick ex st)) c)"
proof -
  let ?st0 = "st\<lparr>editor_queue := \<lparr>items = []\<rparr>\<rparr>"
  let ?r = "run_batch ex (items (editor_queue st)) ?st0"
  let ?st1 = "(fst ?r)\<lparr>game_queue := \<lparr>items = []\<rparr>\<rparr>"
  have a: "evolves (ctxs st c) (ctxs (fst ?r) c)"
    using run_batch_evolves [of ?st0 c ex "items (editor_queue st)"] by simp
  show ?thesis
  proof (cases "snd ?r")
    case None
    have "evolves (ctxs (fst ?r) c) (ctxs (fst (run_batch ex (items (game_queue st)) ?st1)) c)"
      using run_batch_evolves [of ?st1 c ex "items (game_queue st)"] by simp
    with a have "evolves (ctxs st c) (ctxs (fst (run_batch ex (items (game_queue st)) ?st1)) c)"
      by (rule evolves_trans)
    then show ?thesis using None by (simp add: tick_eq Let_def)
  next
    case (Some e)
    then show ?thesis using a by (simp add: tick_eq Let_def)
  qed
qed

lemma tick_next_cid: "next_cid (fst (on_slate_post_tick ex st)) = next_cid st"
proof -
  let ?st0 = "st\<lparr>editor_queue := \<lparr>items = []\<rparr>\<rparr>"
  let ?r = "run_batch ex (items (editor_queue st)) ?st0"
  let ?st1 = "(fst ?r)\<lparr>game_queue := \<lparr>items = []\<rparr>\<rparr>"
  have a: "next_cid (fst ?r) = next_cid st"
    using run_batch_frame [of ex "items (editor_queue st)" ?st0] by simp
  have b: "next_cid (fst (run_batch ex (items (game_queue st)) ?st1)) = next_cid st"
    using run_batch_frame [of ex "items (game_queue st)" ?st1] a by simp
  show ?thesis
    by (cases "snd ?r") (simp_all add: tick_eq Let_def a b)
qed

subsection \<open>One step of the module, context by context\<close>

lemma step_cases:
  "(\<forall>c. evolves (ctxs st c) (ctxs (step lib e st) c)) \<and> next_cid (step lib e st) = next_cid st
   \<or> (\<exists>ctx. error ctx = None \<and> done_ev ctx = Event_init
          \<and> ctxs (step lib e st) = (ctxs st)(next_cid st := ctx)
          \<and> next_cid (step lib e st) = Suc (next_cid st))"
proof (cases e)
  case (Post r)
  from do_POST_begin_cases [of lib r st] show ?thesis
  proof
    assume "snd (do_POST_begin lib r st) = st \<and> (\<forall>c. fst (do_POST_begin lib r st) \<noteq> Enqueued c)"
    then show ?thesis using Post by (simp add: evolves_refl)
  next
    assume "\<exists>ctx h b.
         fst (do_POST_begin lib r st) = Enqueued (next_cid st)
         \<and> error ctx = None \<and> done_ev ctx = Event_init
         \<and> snd (do_POST_begin lib r st) =
             (if b then st\<lparr>ctxs := (ctxs st)(next_cid st := ctx), next_cid := Suc (next_cid st),
                          pyheap := h,
                          editor_queue := push (next_cid st) (editor_queue st)\<rparr>
              else st\<lparr>ctxs := (ctxs st)(next_cid st := ctx), next_cid := Suc (next_cid st),
                       pyheap := h,
                       game_queue := push (next_cid st) (game_queue st)\<rparr>)"
    then obtain ctx h b where c: "error ctx = None" "done_ev ctx = Event_init"
      and s: "snd (do_POST_begin lib r st) =
             (if b then st\<lparr>ctxs := (ctxs st)(next_cid st := ctx), next_cid := Suc (next_cid st),
                          pyheap := h,
                          editor_queue := push (next_cid st) (editor_queue st)\<rparr>
              else st\<lparr>ctxs := (ctxs st)(next_cid st := ctx), next_cid := Suc (next_cid st),
                       pyheap := h,
                       game_queue := push (next_cid st) (game_queue st)\<rparr>)"
      by blast
    have "ctxs (step lib e st) = (ctxs st)(next_cid st := ctx)
          \<and> next_cid (step lib e st) = Suc (next_cid st)"
      using Post s by (cases b) simp_all
    with c show ?thesis by blast
  qed
next
  case (WaitReturns c')
  show ?thesis
  proof (cases "c' < next_cid st")
    case True
    from do_POST_wait_cases [of lib c' st]
    have "(\<forall>c. evolves (ctxs st c) (ctxs (snd (do_POST_wait lib c' st)) c))
        \<and> next_cid (snd (do_POST_wait lib c' st)) = next_cid st"
      by (auto simp: evolves_refl wait_evolves)
    then show ?thesis using WaitReturns True by simp
  next
    case False
    then show ?thesis using WaitReturns by (simp add: evolves_refl)
  qed
next
  case (Responds c')
  then show ?thesis by (simp add: do_POST_respond_state evolves_refl)
next
  case Tick
  then show ?thesis by (simp add: tick_evolves tick_next_cid)
qed

lemma step_evolves:
  assumes "c < next_cid st"
  shows "evolves (ctxs st c) (ctxs (step lib e st) c) \<and> c < next_cid (step lib e st)"
  using step_cases [of st lib e] assms by (auto simp: evolves_refl)

lemma run_evolves:
  "c < next_cid st \<Longrightarrow> evolves (ctxs st c) (ctxs (run lib evs st) c) \<and> c < next_cid (run lib evs st)"
proof (induction evs arbitrary: st)
  case Nil
  then show ?case by (simp add: evolves_refl)
next
  case (Cons e evs)
  from step_evolves [OF Cons.prems, of lib e]
  have a: "evolves (ctxs st c) (ctxs (step lib e st) c)" and b: "c < next_cid (step lib e st)"
    by simp_all
  from Cons.IH [OF b] a show ?case
    by (auto intro: evolves_trans)
qed

lemma step_error_text:
  assumes "\<forall>c. error (ctxs st c) \<noteq> Some []"
  shows "\<forall>c. error (ctxs (step lib e st) c) \<noteq> Some []"
  using step_cases [of st lib e] assms by (auto simp: evolves_def split: if_splits)

lemma run_error_text:
  "\<forall>c. error (ctxs st c) \<noteq> Some [] \<Longrightarrow> \<forall>c. error (ctxs (run lib evs st) c) \<noteq> Some []"
proof (induction evs arbitrary: st)
  case Nil
  then show ?case by simp
next
  case (Cons e evs)
  then show ?case using step_error_text [of st lib e] by simp
qed

lemma initial_error_text: "\<forall>c. error (ctxs initial_state c) \<noteq> Some []"
  by (simp add: initial_state_def)

subsection \<open>Each context is signalled at most once\<close>

lemma once_inv_initial: "once_inv initial_state"
  by (simp add: once_inv_def queued_def initial_state_def ThreadSafeQueue_init_def Event_init_def)

lemma once_inv_tick:
  assumes "once_inv st"
  shows "once_inv (fst (on_slate_post_tick ex st))"
proof -
  let ?B1 = "items (editor_queue st)" and ?B2 = "items (game_queue st)"
  let ?st0 = "st\<lparr>editor_queue := \<lparr>items = []\<rparr>\<rparr>"
  let ?r = "run_batch ex ?B1 ?st0"
  let ?st1 = "(fst ?r)\<lparr>game_queue := \<lparr>items = []\<rparr>\<rparr>"
  let ?r2 = "run_batch ex ?B2 ?st1"
  from assms have d: "distinct (?B1 @ ?B2)"
    and z: "\<forall>c \<in> set (?B1 @ ?B2). c < next_cid st \<and> set_calls (done_ev (ctxs st c)) = 0"
    and k: "\<forall>c. set_calls (done_ev (ctxs st c)) \<le> 1 \<and>
             (flag (done_ev (ctxs st c)) \<longleftrightarrow> set_calls (done_ev (ctxs st c)) = 1)"
    by (simp_all add: once_inv_def queued_def)
  have d1: "distinct ?B1" and d2: "distinct ?B2" and dj: "set ?B1 \<inter> set ?B2 = {}"
    using d by auto
  have z1: "\<forall>c \<in> set ?B1. set_calls (done_ev (ctxs ?st0 c)) = 0"
    using z by simp
  have k0: "\<forall>c. set_calls (done_ev (ctxs ?st0 c)) \<le> 1 \<and>
             (flag (done_ev (ctxs ?st0 c)) \<longleftrightarrow> set_calls (done_ev (ctxs ?st0 c)) = 1)"
    using k by simp
  have k1: "\<forall>c. set_calls (done_ev (ctxs (fst ?r) c)) \<le> 1 \<and>
             (flag (done_ev (ctxs (fst ?r) c)) \<longleftrightarrow> set_calls (done_ev (ctxs (fst ?r) c)) = 1)"
    using d1 z1 k0 by (rule run_batch_counted)
  have f1: "editor_queue (fst ?r) = \<lparr>items = []\<rparr>" "game_queue (fst ?r) = game_queue st"
    "next_cid (fst ?r) = next_cid st"
    using run_batch_frame [of ex ?B1 ?st0] by simp_all
  have o1: "\<forall>c \<in> set ?B2. ctxs (fst ?r) c = ctxs st c"
  proof
    fix c assume "c \<in> set ?B2"
    then have "c \<notin> set ?B1" using dj by auto
    then show "ctxs (fst ?r) c = ctxs st c"
      using run_batch_other [of c ?B1 ex ?st0] by simp
  qed
  have inv1: "once_inv (fst ?r)"
    unfolding once_inv_def queued_def using f1 d2 z o1 k1 by simp
  show ?thesis
  proof (cases "snd ?r")
    case (Some e)
    then show ?thesis using inv1 by (simp add: tick_eq Let_def)
  next
    case None
    have z2: "\<forall>c \<in> set ?B2. set_calls (done_ev (ctxs ?st1 c)) = 0"
      using z o1 by simp
    have k1': "\<forall>c. set_calls (done_ev (ctxs ?st1 c)) \<le> 1 \<and>
             (flag (done_ev (ctxs ?st1 c)) \<longleftrightarrow> set_calls (done_ev (ctxs ?st1 c)) = 1)"
      using k1 by simp
    have k2: "\<forall>c. set_calls (done_ev (ctxs (fst ?r2) c)) \<le> 1 \<and>
             (flag (done_ev (ctxs (fst ?r2) c)) \<longleftrightarrow> set_calls (done_ev (ctxs (fst ?r2) c)) = 1)"
      using d2 z2 k1' by (rule run_batch_counted)
    have f2: "editor_queue (fst ?r2) = \<lparr>items = []\<rparr>" "game_queue (fst ?r2) = \<lparr>items = []\<rparr>"
      using run_batch_frame [of ex ?B2 ?st1] f1 by simp_all
    have "once_inv (fst ?r2)"
      unfolding once_inv_def queued_def using f2 k2 by simp
    then show ?thesis using None by (simp add: tick_eq Let_def)
  qed
qed

lemma once_inv_step:
  assumes "once_inv st"
  shows "once_inv (step lib e st)"
proof (cases e)
  case (Post r)
  from do_POST_begin_cases [of lib r st] show ?thesis
  proof
    assume "snd (do_POST_begin lib r st) = st \<and> (\<forall>c. fst (do_POST_begin lib r st) \<noteq> Enqueued c)"
    then show ?thesis using Post assms by simp
  next
    assume "\<exists>ctx h b.
         fst (do_POST_begin lib r st) = Enqueued (next_cid st)
         \<and> error ctx = None \<and> done_ev ctx = Event_init
         \<and> snd (do_POST_begin lib r st) =
             (if b then st\<lparr>ctxs := (ctxs st)(next_cid st := ctx), next_cid := Suc (next_cid st),
                          pyheap := h,
                          editor_queue := push (next_cid st) (editor_queue st)\<rparr>
              else st\<lparr>ctxs := (ctxs st)(next_cid st := ctx), next_cid := Suc (next_cid st),
                       pyheap := h,
                       game_queue := push (next_cid st) (game_queue st)\<rparr>)"
    then obtain ctx h b where c: "done_ev ctx = Event_init"
      and s: "snd (do_POST_begin lib r st) =
             (if b then st\<lparr>ctxs := (ctxs st)(next_cid st := ctx), next_cid := Suc (next_cid st),
                          pyheap := h,
                          editor_queue := push (next_cid st) (editor_queue st)\<rparr>
              else st\<lparr>ctxs := (ctxs st)(next_cid st := ctx), next_cid := Suc (next_cid st),
                       pyheap := h,
                       game_queue := push (next_cid st) (game_queue st)\<rparr>)"
      by blast
    from assms have d: "distinct (queued st)"
      and z: "\<forall>c \<in> set (queued st). c < next_cid st \<and> set_calls (done_ev (ctxs st c)) = 0"
      and k: "\<forall>c. set_calls (done_ev (ctxs st c)) \<le> 1 \<and>
             (flag (done_ev (ctxs st c)) \<longleftrightarrow> set_calls (done_ev (ctxs st c)) = 1)"
      by (simp_all add: once_inv_def)
    have fresh: "next_cid st \<notin> set (queued st)" using z by auto
    show ?thesis
    proof (cases b)
      case True
      then have st': "step lib e st = st\<lparr>ctxs := (ctxs st)(next_cid st := ctx),
                          next_cid := Suc (next_cid st), pyheap := h,
                          editor_queue := push (next_cid st) (editor_queue st)\<rparr>"
        using Post s by simp
      have q: "set (queued (step lib e st)) = insert (next_cid st) (set (queued st))"
        and dq: "distinct (queued (step lib e st))"
        using d fresh unfolding st' by (auto simp: queued_def push_def)
      show ?thesis
        unfolding once_inv_def using dq q z k c fresh
        by (auto simp: st' Event_init_def less_Suc_eq)
    next
      case False
      then have st': "step lib e st = st\<lparr>ctxs := (ctxs st)(next_cid st := ctx),
                          next_cid := Suc (next_cid st), pyheap := h,
                          game_queue := push (next_cid st) (game_queue st)\<rparr>"
        using Post s by simp
      have q: "set (queued (step lib e st)) = insert (next_cid st) (set (queued st))"
        and dq: "distinct (queued (step lib e st))"
        using d fresh unfolding st' by (auto simp: queued_def push_def)
      show ?thesis
        unfolding once_inv_def using dq q z k c fresh
        by (auto simp: st' Event_init_def less_Suc_eq)
    qed
  qed
next
  case (WaitReturns c')
  show ?thesis
  proof (cases "c' < next_cid st")
    case True
    from do_POST_wait_cases [of lib c' st] have "once_inv (snd (do_POST_wait lib c' st))"
    proof
      assume "\<exists>e. do_POST_wait lib c' st = (Unhandled e, st)"
      then show ?thesis using assms by auto
    next
      assume "\<exists>ctx'. wait (py_str lib)
                (Event_wait (timeout_max lib) (timeout (ctxs st c')) (done_ev (ctxs st c')))
                (ctxs st c') = Inr ctx'
              \<and> do_POST_wait lib c' st = (Waited c', st\<lparr>ctxs := (ctxs st)(c' := ctx')\<rparr>)"
      then obtain ctx' where w: "wait (py_str lib)
                (Event_wait (timeout_max lib) (timeout (ctxs st c')) (done_ev (ctxs st c')))
                (ctxs st c') = Inr ctx'"
        and s: "snd (do_POST_wait lib c' st) = st\<lparr>ctxs := (ctxs st)(c' := ctx')\<rparr>"
        by auto
      show ?thesis
        using assms unfolding once_inv_def s by (simp add: queued_def wait_done [OF w])
    qed
    then show ?thesis using WaitReturns True by simp
  next
    case False
    then show ?thesis using WaitReturns assms by simp
  qed
next
  case (Responds c')
  then show ?thesis using assms by (simp add: do_POST_respond_state)
next
  case Tick
  then show ?thesis using assms by (simp add: once_inv_tick)
qed

lemma once_inv_run: "once_inv st \<Longrightarrow> once_inv (run lib evs st)"
  by (induction evs arbitrary: st) (simp_all add: once_inv_step)


section \<open>The completion signal\<close>

text \<open>
  C2. On every exit path of the dispatcher (the interpreter returns, raises an
  \<^verbatim>\<open>Exception\<close>, or raises an exception that leaves the function) the completion flag
  is set when it finishes, by exactly one \<^verbatim>\<open>set()\<close> call. Over every sequence of
  requests, returning waits, responses and ticks from the initial state, each context has had at most
  one \<^verbatim>\<open>set()\<close> call, and its flag is set exactly when it has had one. A flag that is set
  stays set over every such sequence from any state.
\<close>

theorem completion_signal_exactly_once:
  "flag (done_ev (fst (execute_context ex ctx h)))
   \<and> set_calls (done_ev (fst (execute_context ex ctx h))) = Suc (set_calls (done_ev ctx))
   \<and> set_calls (done_ev (ctxs (run lib evs initial_state) c)) \<le> 1
   \<and> (flag (done_ev (ctxs (run lib evs initial_state) c))
        \<longleftrightarrow> set_calls (done_ev (ctxs (run lib evs initial_state) c)) = 1)
   \<and> (c < next_cid st \<and> flag (done_ev (ctxs st c)) \<longrightarrow> flag (done_ev (ctxs (run lib evs st) c)))"
proof -
  have a: "flag (done_ev (fst (execute_context ex ctx h)))
      \<and> set_calls (done_ev (fst (execute_context ex ctx h))) = Suc (set_calls (done_ev ctx))"
    by (simp add: execute_context_done Event_set_def)
  have "once_inv (run lib evs initial_state)"
    using once_inv_initial by (rule once_inv_run)
  then have b: "set_calls (done_ev (ctxs (run lib evs initial_state) c)) \<le> 1
      \<and> (flag (done_ev (ctxs (run lib evs initial_state) c))
        \<longleftrightarrow> set_calls (done_ev (ctxs (run lib evs initial_state) c)) = 1)"
    unfolding once_inv_def by blast
  have d: "c < next_cid st \<and> flag (done_ev (ctxs st c)) \<longrightarrow> flag (done_ev (ctxs (run lib evs st) c))"
    using run_evolves [of c st lib evs] by (auto simp: evolves_def)
  show ?thesis using a b d by blast
qed

lemmas model_defs =
  sample_lib_def post_def do_POST_begin_def do_POST_wait_def do_POST_respond_def Event_wait_def
  dict_get_def py_float_def Let_def
  heap_new_def ExecutionContext_init_def initial_state_def initial_heap_def
  ThreadSafeQueue_init_def push_def on_slate_post_tick_def drain_queue_def drain_def
  queue_of_def set_queue_def execute_context_def sample_exec_def seed_namespace_def
  Event_init_def Event_set_def wait_def timeout_text_def to_response_def unreal_module_def

lemma sample_run_fault:
  "run sample_lib [Post (post [(''script'', JStr ''1/0'')]), Tick] initial_state
   = \<lparr>editor_queue = \<lparr>items = []\<rparr>, game_queue = \<lparr>items = []\<rparr>,
      ctxs = (ctxs initial_state)(0 := \<lparr>script = JStr ''1/0'', params = 1, timeout = Finite 30, result = 2,
          error = Some (format_exc (PyExc Exception ''ZeroDivisionError'' ''division by zero'' [])),
          done_ev = \<lparr>flag = True, set_calls = 1\<rparr>\<rparr>),
      next_cid = 1, pyheap = [PyModule ''unreal'', PyData (JObj []), PyData (JObj [])]\<rparr>"
  by (simp add: model_defs numeral_2_eq_2)

theorem completion_signal_exactly_once_witness:
  "flag (done_ev (fst (execute_context sample_exec (sample_ctx (JStr ''raise SystemExit'')) sample_heap)))
   \<and> snd (snd (execute_context sample_exec (sample_ctx (JStr ''raise SystemExit'')) sample_heap))
       = Some (PyExc BaseException ''SystemExit'' [] [])
   \<and> set_calls (done_ev (ctxs (run sample_lib [Post (post [(''script'', JStr ''1/0'')]), Tick, Tick]
         initial_state) 0)) = 1
   \<and> 0 < next_cid (run sample_lib [Post (post [(''script'', JStr ''1/0'')]), Tick] initial_state)
   \<and> flag (done_ev (ctxs (run sample_lib [Post (post [(''script'', JStr ''1/0'')]), Tick] initial_state) 0))
   \<and> flag (done_ev (ctxs (run sample_lib [Tick, Post (post []), WaitReturns 0, Tick]
         (run sample_lib [Post (post [(''script'', JStr ''1/0'')]), Tick] initial_state)) 0))"
proof -
  let ?st = "run sample_lib [Post (post [(''script'', JStr ''1/0'')]), Tick] initial_state"
  have n: "0 < next_cid ?st" and f: "flag (done_ev (ctxs ?st 0))"
    unfolding sample_run_fault by simp_all
  have x: "snd (snd (execute_context sample_exec (sample_ctx (JStr ''raise SystemExit'')) sample_heap))
       = Some (PyExc BaseException ''SystemExit'' [] [])"
    by (simp add: execute_context_def sample_exec_def sample_ctx_def)
  have one: "set_calls (done_ev (ctxs (run sample_lib
        [Post (post [(''script'', JStr ''1/0'')]), Tick, Tick] initial_state) 0)) = 1"
    using completion_signal_exactly_once
      [of sample_exec "sample_ctx (JStr ''raise SystemExit'')" sample_heap sample_lib
          "[Post (post [(''script'', JStr ''1/0'')]), Tick, Tick]" 0 ?st]
      f by (simp add: model_defs)
  from n f x one
    completion_signal_exactly_once
      [of sample_exec "sample_ctx (JStr ''raise SystemExit'')" sample_heap sample_lib
          "[Tick, Post (post []), WaitReturns 0, Tick]" 0 ?st]
  show ?thesis by blast
qed


section \<open>The response of a context\<close>

text \<open>
  C8. \<^verbatim>\<open>to_response\<close> of a context whose error is \<^verbatim>\<open>None\<close> is the success response with
  the context's result, and of a context whose error is a text is the failure response
  with that text; the call leaves the context as it was. This holds for every context of
  every state the module reaches from its initial state: an error text is never empty
  there, so the truth test of \<^verbatim>\<open>if self.error:\<close> is the test for \<^verbatim>\<open>None\<close>.
\<close>

theorem to_response_outcome:
  "to_response (ctxs (run lib evs initial_state) c) =
     (case error (ctxs (run lib evs initial_state) c) of
        None \<Rightarrow> Success (result (ctxs (run lib evs initial_state) c))
      | Some e \<Rightarrow> Failure e,
      ctxs (run lib evs initial_state) c)
   \<and> (error ctx = None \<longrightarrow> to_response ctx = (Success (result ctx), ctx))
   \<and> (error ctx = Some e \<and> e \<noteq> [] \<longrightarrow> to_response ctx = (Failure e, ctx))"
proof -
  have "error (ctxs (run lib evs initial_state) c) \<noteq> Some []"
    using run_error_text [OF initial_error_text, of lib evs] by blast
  then have "to_response (ctxs (run lib evs initial_state) c) =
     (case error (ctxs (run lib evs initial_state) c) of
        None \<Rightarrow> Success (result (ctxs (run lib evs initial_state) c))
      | Some e \<Rightarrow> Failure e,
      ctxs (run lib evs initial_state) c)"
    by (simp add: to_response_def split: option.splits)
  moreover have "error ctx = None \<longrightarrow> to_response ctx = (Success (result ctx), ctx)"
    by (simp add: to_response_def)
  moreover have "error ctx = Some e \<and> e \<noteq> [] \<longrightarrow> to_response ctx = (Failure e, ctx)"
    by (simp add: to_response_def)
  ultimately show ?thesis by blast
qed

lemma sample_run_update:
  "run sample_lib [Post (post [(''script'', JStr ''result.update(x=1+1)'')]), Tick] initial_state
   = \<lparr>editor_queue = \<lparr>items = []\<rparr>, game_queue = \<lparr>items = []\<rparr>,
      ctxs = (ctxs initial_state)(0 := \<lparr>script = JStr ''result.update(x=1+1)'', params = 1,
          timeout = Finite 30, result = 2, error = None,
          done_ev = \<lparr>flag = True, set_calls = 1\<rparr>\<rparr>),
      next_cid = 1,
      pyheap = [PyModule ''unreal'', PyData (JObj []), PyData (JObj [(''x'', JInt 2)])]\<rparr>"
  by (simp add: model_defs numeral_2_eq_2)

theorem to_response_outcome_witness:
  "to_response (ctxs (run sample_lib
       [Post (post [(''script'', JStr ''result.update(x=1+1)'')]), Tick] initial_state) 0)
     = (Success 2, ctxs (run sample_lib
       [Post (post [(''script'', JStr ''result.update(x=1+1)'')]), Tick] initial_state) 0)
   \<and> to_response (ctxs (run sample_lib [Post (post [(''script'', JStr ''1/0'')]), Tick] initial_state) 0)
     = (Failure (format_exc (PyExc Exception ''ZeroDivisionError'' ''division by zero'' [])),
        ctxs (run sample_lib [Post (post [(''script'', JStr ''1/0'')]), Tick] initial_state) 0)
   \<and> error (sample_ctx JNull) = None
   \<and> to_response (sample_ctx JNull) = (Success 2, sample_ctx JNull)
   \<and> to_response ((sample_ctx JNull)\<lparr>error := Some ''boom''\<rparr>)
     = (Failure ''boom'', (sample_ctx JNull)\<lparr>error := Some ''boom''\<rparr>)"
proof -
  let ?u = "run sample_lib [Post (post [(''script'', JStr ''result.update(x=1+1)'')]), Tick] initial_state"
  let ?f = "run sample_lib [Post (post [(''script'', JStr ''1/0'')]), Tick] initial_state"
  have eu: "error (ctxs ?u 0) = None" and ru: "result (ctxs ?u 0) = 2"
    unfolding sample_run_update by simp_all
  have ef: "error (ctxs ?f 0)
      = Some (format_exc (PyExc Exception ''ZeroDivisionError'' ''division by zero'' []))"
    unfolding sample_run_fault by simp
  have n: "error (sample_ctx JNull) = None" and r: "result (sample_ctx JNull) = 2"
    by (simp_all add: sample_ctx_def)
  have b: "error ((sample_ctx JNull)\<lparr>error := Some ''boom''\<rparr>) = Some ''boom'' \<and> ''boom'' \<noteq> []"
    by simp
  from to_response_outcome
         [of sample_lib "[Post (post [(''script'', JStr ''result.update(x=1+1)'')]), Tick]" 0
             "sample_ctx JNull" "[]"] eu ru n r
  have one: "to_response (ctxs ?u 0) = (Success 2, ctxs ?u 0)
      \<and> to_response (sample_ctx JNull) = (Success 2, sample_ctx JNull)"
    by simp
  from to_response_outcome
         [of sample_lib "[Post (post [(''script'', JStr ''1/0'')]), Tick]" 0
             "(sample_ctx JNull)\<lparr>error := Some ''boom''\<rparr>" "''boom''"] ef b
  have two: "to_response (ctxs ?f 0)
      = (Failure (format_exc (PyExc Exception ''ZeroDivisionError'' ''division by zero'' [])),
         ctxs ?f 0)
      \<and> to_response ((sample_ctx JNull)\<lparr>error := Some ''boom''\<rparr>)
          = (Failure ''boom'', (sample_ctx JNull)\<lparr>error := Some ''boom''\<rparr>)"
    by simp
  from one two n show ?thesis by blast
qed


section \<open>Waiting with a timeout\<close>

subsection \<open>A timeout changes nothing but the error field\<close>

lemma same_but_error_fields:
  assumes "(a :: ExecutionContext)\<lparr>error := None\<rparr> = b\<lparr>error := None\<rparr>"
  shows "script a = script b \<and> params a = params b \<and> timeout a = timeout b
         \<and> result a = result b \<and> done_ev a = done_ev b"
  using assms by (cases a; cases b) simp






section \<open>Faults in a batch, and the order of the lanes\<close>

subsection \<open>Batches in sequence\<close>

lemma run_batch_append:
  "run_batch ex (xs @ ys) st =
     (case snd (run_batch ex xs st) of
        None \<Rightarrow> run_batch ex ys (fst (run_batch ex xs st))
      | Some e \<Rightarrow> run_batch ex xs st)"
proof (induction xs arbitrary: st)
  case Nil
  then show ?case by simp
next
  case (Cons d xs)
  let ?r = "execute_context ex (ctxs st d) (pyheap st)"
  let ?s = "st\<lparr>ctxs := (ctxs st)(d := fst ?r), pyheap := fst (snd ?r)\<rparr>"
  show ?case
  proof (cases "snd (snd ?r)")
    case None
    then have e1: "run_batch ex (d # xs) st = run_batch ex xs ?s"
      and e2: "run_batch ex ((d # xs) @ ys) st = run_batch ex (xs @ ys) ?s"
      by (simp_all add: run_batch_step Let_def del: run_batch.simps)
    show ?thesis unfolding e1 e2 by (rule Cons.IH)
  next
    case (Some e)
    then have e1: "run_batch ex (d # xs) st = (?s, Some e)"
      and e2: "run_batch ex ((d # xs) @ ys) st = (?s, Some e)"
      by (simp_all add: run_batch_step Let_def del: run_batch.simps)
    show ?thesis unfolding e1 e2 by simp
  qed
qed

lemma run_batch_game_queue:
  "run_batch ex cs (st\<lparr>game_queue := q\<rparr>)
     = ((fst (run_batch ex cs st))\<lparr>game_queue := q\<rparr>, snd (run_batch ex cs st))"
proof (induction cs arbitrary: st)
  case Nil
  then show ?case by simp
next
  case (Cons d cs)
  let ?r = "execute_context ex (ctxs st d) (pyheap st)"
  let ?s = "st\<lparr>ctxs := (ctxs st)(d := fst ?r), pyheap := fst (snd ?r)\<rparr>"
  have sw: "st\<lparr>game_queue := q, ctxs := (ctxs st)(d := fst ?r), pyheap := fst (snd ?r)\<rparr>
              = ?s\<lparr>game_queue := q\<rparr>"
    by simp
  show ?case
  proof (cases "snd (snd ?r)")
    case None
    then have e1: "run_batch ex (d # cs) st = run_batch ex cs ?s"
      and e2: "run_batch ex (d # cs) (st\<lparr>game_queue := q\<rparr>) = run_batch ex cs (?s\<lparr>game_queue := q\<rparr>)"
      by (simp_all add: run_batch_step Let_def sw del: run_batch.simps)
    show ?thesis unfolding e1 e2 by (rule Cons.IH)
  next
    case (Some e)
    then have e1: "run_batch ex (d # cs) st = (?s, Some e)"
      and e2: "run_batch ex (d # cs) (st\<lparr>game_queue := q\<rparr>) = (?s\<lparr>game_queue := q\<rparr>, Some e)"
      by (simp_all add: run_batch_step Let_def sw del: run_batch.simps)
    show ?thesis unfolding e1 e2 by simp
  qed
qed

lemma run_batch_all_run:
  "snd (run_batch ex cs st) = None \<Longrightarrow>
     \<forall>c \<in> set cs. flag (done_ev (ctxs (fst (run_batch ex cs st)) c))"
proof (induction cs arbitrary: st)
  case Nil
  then show ?case by simp
next
  case (Cons d cs)
  let ?r = "execute_context ex (ctxs st d) (pyheap st)"
  let ?s = "st\<lparr>ctxs := (ctxs st)(d := fst ?r), pyheap := fst (snd ?r)\<rparr>"
  have n: "snd (snd ?r) = None"
  proof (cases "snd (snd ?r)")
    case None
    then show ?thesis .
  next
    case (Some e)
    then have "run_batch ex (d # cs) st = (?s, Some e)"
      by (simp add: run_batch_step Let_def del: run_batch.simps)
    then have "snd (run_batch ex (d # cs) st) = Some e" by (simp only: snd_conv)
    with Cons.prems show ?thesis by (simp only: option.distinct)
  qed
  then have eq: "run_batch ex (d # cs) st = run_batch ex cs ?s"
    by (simp add: run_batch_step Let_def del: run_batch.simps)
  have rest: "\<forall>c \<in> set cs. flag (done_ev (ctxs (fst (run_batch ex cs ?s)) c))"
    using Cons.prems unfolding eq by (rule Cons.IH)
  have "flag (done_ev (ctxs ?s d))"
    by (simp add: execute_context_done Event_set_def)
  moreover have "evolves (ctxs ?s d) (ctxs (fst (run_batch ex cs ?s)) d)"
    by (rule run_batch_evolves)
  ultimately have "flag (done_ev (ctxs (fst (run_batch ex cs ?s)) d))"
    by (simp add: evolves_def)
  then show ?case unfolding eq using rest by simp
qed

lemma drain_queue_empty:
  assumes "items (queue_of l st) = []"
  shows "drain_queue ex l st = (st, None)"
proof -
  have "(queue_of l st)\<lparr>items := []\<rparr> = queue_of l st"
    using assms by (cases "queue_of l st") simp
  then have "set_queue l ((queue_of l st)\<lparr>items := []\<rparr>) st = st"
    by (cases l) (simp_all add: set_queue_def queue_of_def)
  then show ?thesis using assms by (simp add: drain_queue_eq)
qed

lemma sample_two_editor:
  "run sample_lib [Post (post [(''script'', JStr ''raise SystemExit'')]),
                   Post (post [(''script'', JStr ''result.update(x=1+1)'')])] initial_state
   = \<lparr>editor_queue = \<lparr>items = [0, 1]\<rparr>, game_queue = \<lparr>items = []\<rparr>,
      ctxs = (ctxs initial_state)
        (0 := \<lparr>script = JStr ''raise SystemExit'', params = 1, timeout = Finite 30, result = 2,
               error = None, done_ev = \<lparr>flag = False, set_calls = 0\<rparr>\<rparr>,
         1 := \<lparr>script = JStr ''result.update(x=1+1)'', params = 3, timeout = Finite 30, result = 4,
               error = None, done_ev = \<lparr>flag = False, set_calls = 0\<rparr>\<rparr>),
      next_cid = 2,
      pyheap = [PyModule ''unreal'', PyData (JObj []), PyData (JObj []), PyData (JObj []),
                PyData (JObj [])]\<rparr>"
  by (simp add: model_defs eval_nat_numeral)

text \<open>
  C3 as stated fails for a payload whose exception is not an \<^verbatim>\<open>Exception\<close>: with
  \<^verbatim>\<open>raise SystemExit\<close> queued before another command, the tick ends with the exception,
  the first context's error is still \<^verbatim>\<open>None\<close>, and the second command, drained in the
  same batch, is not run.
\<close>

theorem fault_not_caught_counterexample:
  "snd (on_slate_post_tick sample_exec
      (run sample_lib [Post (post [(''script'', JStr ''raise SystemExit'')]),
                       Post (post [(''script'', JStr ''result.update(x=1+1)'')])] initial_state))
     = Some (PyExc BaseException ''SystemExit'' [] [])
   \<and> error (ctxs (fst (on_slate_post_tick sample_exec
      (run sample_lib [Post (post [(''script'', JStr ''raise SystemExit'')]),
                       Post (post [(''script'', JStr ''result.update(x=1+1)'')])] initial_state))) 0)
     = None
   \<and> \<not> flag (done_ev (ctxs (fst (on_slate_post_tick sample_exec
      (run sample_lib [Post (post [(''script'', JStr ''raise SystemExit'')]),
                       Post (post [(''script'', JStr ''result.update(x=1+1)'')])] initial_state))) 1))
   \<and> items (editor_queue (fst (on_slate_post_tick sample_exec
      (run sample_lib [Post (post [(''script'', JStr ''raise SystemExit'')]),
                       Post (post [(''script'', JStr ''result.update(x=1+1)'')])] initial_state))))
     = []"
  unfolding sample_two_editor by (simp add: model_defs)


text \<open>
  C3, amended. For every command whose payload raises an exception that is an instance
  of \<^verbatim>\<open>Exception\<close>, wherever it stands in a drained batch whose earlier commands have
  run without an exception leaving the dispatcher: the dispatcher catches the exception,
  the context's error becomes the formatted traceback, its flag is set, nothing
  propagates to the drain loop, and the loop goes on with the commands after it from the
  state the command left. When the loop ends without an exception, every command after
  it has been run.
\<close>

theorem exception_caught_and_batch_continues:
  assumes "snd (run_batch ex pre st0) = None" and "st = fst (run_batch ex pre st0)"
    and "ex (script (ctxs st c)) (seed_namespace (ctxs st c)) (pyheap st) = Raised x h'"
    and "base x = Exception"
  shows "execute_context ex (ctxs st c) (pyheap st)
           = ((ctxs st c)\<lparr>error := Some (format_exc x), done_ev := Event_set (done_ev (ctxs st c))\<rparr>,
              h', None)
         \<and> run_batch ex (pre @ c # cs) st0
           = run_batch ex cs
               (st\<lparr>ctxs := (ctxs st)
                      (c := (ctxs st c)\<lparr>error := Some (format_exc x),
                                        done_ev := Event_set (done_ev (ctxs st c))\<rparr>),
                    pyheap := h'\<rparr>)
         \<and> (snd (run_batch ex (pre @ c # cs) st0) = None
              \<longrightarrow> (\<forall>d \<in> set cs. flag (done_ev (ctxs (fst (run_batch ex (pre @ c # cs) st0)) d))))"
proof -
  let ?ctx = "(ctxs st c)\<lparr>error := Some (format_exc x), done_ev := Event_set (done_ev (ctxs st c))\<rparr>"
  have a: "execute_context ex (ctxs st c) (pyheap st) = (?ctx, h', None)"
    using assms(3,4) by (rule execute_context_caught)
  have "run_batch ex (pre @ c # cs) st0 = run_batch ex (c # cs) st"
    using assms(1,2) by (simp add: run_batch_append del: run_batch.simps)
  also have "\<dots> = run_batch ex cs (st\<lparr>ctxs := (ctxs st)(c := ?ctx), pyheap := h'\<rparr>)"
    using a by simp
  finally have b: "run_batch ex (pre @ c # cs) st0
      = run_batch ex cs (st\<lparr>ctxs := (ctxs st)(c := ?ctx), pyheap := h'\<rparr>)" .
  have d: "snd (run_batch ex (pre @ c # cs) st0) = None
      \<longrightarrow> (\<forall>d \<in> set cs. flag (done_ev (ctxs (fst (run_batch ex (pre @ c # cs) st0)) d)))"
    unfolding b using run_batch_all_run by blast
  show ?thesis using a b d by blast
qed

lemma sample_fault_then_update:
  "run sample_lib [Post (post [(''script'', JStr ''1/0'')]),
                   Post (post [(''script'', JStr ''result.update(x=1+1)'')])] initial_state
   = \<lparr>editor_queue = \<lparr>items = [0, 1]\<rparr>, game_queue = \<lparr>items = []\<rparr>,
      ctxs = (ctxs initial_state)
        (0 := \<lparr>script = JStr ''1/0'', params = 1, timeout = Finite 30, result = 2,
               error = None, done_ev = \<lparr>flag = False, set_calls = 0\<rparr>\<rparr>,
         1 := \<lparr>script = JStr ''result.update(x=1+1)'', params = 3, timeout = Finite 30, result = 4,
               error = None, done_ev = \<lparr>flag = False, set_calls = 0\<rparr>\<rparr>),
      next_cid = 2,
      pyheap = [PyModule ''unreal'', PyData (JObj []), PyData (JObj []), PyData (JObj []),
                PyData (JObj [])]\<rparr>"
  by (simp add: model_defs eval_nat_numeral)

theorem exception_caught_and_batch_continues_witness:
  "error (fst (execute_context sample_exec
       (ctxs (run sample_lib [Post (post [(''script'', JStr ''1/0'')]),
                Post (post [(''script'', JStr ''result.update(x=1+1)'')])] initial_state) 0)
       (pyheap (run sample_lib [Post (post [(''script'', JStr ''1/0'')]),
                Post (post [(''script'', JStr ''result.update(x=1+1)'')])] initial_state))))
     = Some (format_exc (PyExc Exception ''ZeroDivisionError'' ''division by zero'' []))
   \<and> snd (run_batch sample_exec ([] @ 0 # [1])
       (run sample_lib [Post (post [(''script'', JStr ''1/0'')]),
                Post (post [(''script'', JStr ''result.update(x=1+1)'')])] initial_state)) = None
   \<and> flag (done_ev (ctxs (fst (run_batch sample_exec ([] @ 0 # [1])
       (run sample_lib [Post (post [(''script'', JStr ''1/0'')]),
                Post (post [(''script'', JStr ''result.update(x=1+1)'')])] initial_state))) 1))
   \<and> pyheap (fst (run_batch sample_exec ([] @ 0 # [1])
       (run sample_lib [Post (post [(''script'', JStr ''1/0'')]),
                Post (post [(''script'', JStr ''result.update(x=1+1)'')])] initial_state)))
     = [PyModule ''unreal'', PyData (JObj []), PyData (JObj []), PyData (JObj []),
        PyData (JObj [(''x'', JInt 2)])]"
proof -
  let ?st = "run sample_lib [Post (post [(''script'', JStr ''1/0'')]),
                Post (post [(''script'', JStr ''result.update(x=1+1)'')])] initial_state"
  let ?x = "PyExc Exception ''ZeroDivisionError'' ''division by zero'' []"
  have p: "snd (run_batch sample_exec [] ?st) = None" and q: "?st = fst (run_batch sample_exec [] ?st)"
    by simp_all
  have r: "sample_exec (script (ctxs ?st 0)) (seed_namespace (ctxs ?st 0)) (pyheap ?st)
             = Raised ?x (pyheap ?st)"
    unfolding sample_fault_then_update by (simp add: sample_exec_def)
  have b: "base ?x = Exception" by simp
  note inst = exception_caught_and_batch_continues [OF p q r b, of "[1]"]
  have n: "snd (run_batch sample_exec ([] @ 0 # [1]) ?st) = None"
    and h: "pyheap (fst (run_batch sample_exec ([] @ 0 # [1]) ?st))
     = [PyModule ''unreal'', PyData (JObj []), PyData (JObj []), PyData (JObj []),
        PyData (JObj [(''x'', JInt 2)])]"
    unfolding sample_fault_then_update by (simp_all add: model_defs eval_nat_numeral)
  from inst have "snd (run_batch sample_exec ([] @ 0 # [1]) ?st) = None
      \<longrightarrow> (\<forall>d \<in> set [1]. flag (done_ev (ctxs (fst (run_batch sample_exec ([] @ 0 # [1]) ?st)) d)))"
    by blast
  with n have "\<forall>d \<in> set [1]. flag (done_ev (ctxs (fst (run_batch sample_exec ([] @ 0 # [1]) ?st)) d))"
    by blast
  then have f: "flag (done_ev (ctxs (fst (run_batch sample_exec ([] @ 0 # [1]) ?st)) 1))"
    by (simp del: run.simps run_batch.simps)
  from inst have a: "execute_context sample_exec (ctxs ?st 0) (pyheap ?st)
      = ((ctxs ?st 0)\<lparr>error := Some (format_exc ?x),
                        done_ev := Event_set (done_ev (ctxs ?st 0))\<rparr>, pyheap ?st, None)"
    by blast
  have e: "error (fst (execute_context sample_exec (ctxs ?st 0) (pyheap ?st)))
     = Some (format_exc ?x)"
    unfolding a by simp
  from e n f h show ?thesis by blast
qed

lemma sample_two_lanes:
  "run sample_lib [Post (post [(''script'', JStr ''raise SystemExit'')]),
                   Post (post [(''mode'', JStr ''game''), (''script'', JStr ''result.update(x=1+1)'')])]
     initial_state
   = \<lparr>editor_queue = \<lparr>items = [0]\<rparr>, game_queue = \<lparr>items = [1]\<rparr>,
      ctxs = (ctxs initial_state)
        (0 := \<lparr>script = JStr ''raise SystemExit'', params = 1, timeout = Finite 30, result = 2,
               error = None, done_ev = \<lparr>flag = False, set_calls = 0\<rparr>\<rparr>,
         1 := \<lparr>script = JStr ''result.update(x=1+1)'', params = 3, timeout = Finite 30, result = 4,
               error = None, done_ev = \<lparr>flag = False, set_calls = 0\<rparr>\<rparr>),
      next_cid = 2,
      pyheap = [PyModule ''unreal'', PyData (JObj []), PyData (JObj []), PyData (JObj []),
                PyData (JObj [])]\<rparr>"
  by (simp add: model_defs eval_nat_numeral)

text \<open>
  C7 as stated fails when a payload of the editor lane raises an exception that is not an
  \<^verbatim>\<open>Exception\<close>: the tick ends there, and the game lane is not drained, its command
  stays queued and is not run.
\<close>

theorem tick_skips_game_lane_counterexample:
  "snd (on_slate_post_tick sample_exec
      (run sample_lib [Post (post [(''script'', JStr ''raise SystemExit'')]),
         Post (post [(''mode'', JStr ''game''), (''script'', JStr ''result.update(x=1+1)'')])]
         initial_state))
     = Some (PyExc BaseException ''SystemExit'' [] [])
   \<and> items (game_queue (fst (on_slate_post_tick sample_exec
      (run sample_lib [Post (post [(''script'', JStr ''raise SystemExit'')]),
         Post (post [(''mode'', JStr ''game''), (''script'', JStr ''result.update(x=1+1)'')])]
         initial_state)))) = [1]
   \<and> \<not> flag (done_ev (ctxs (fst (on_slate_post_tick sample_exec
      (run sample_lib [Post (post [(''script'', JStr ''raise SystemExit'')]),
         Post (post [(''mode'', JStr ''game''), (''script'', JStr ''result.update(x=1+1)'')])]
         initial_state))) 1))"
  unfolding sample_two_lanes by (simp add: model_defs)

text \<open>
  C7, amended. Every invocation of the tick callback drains the editor lane and runs the
  returned commands in the order returned. If none of them ends with an exception that
  leaves the dispatcher, it then drains the game lane and does the same, so that a tick
  that returns normally has run the editor batch followed by the game batch, in that
  order, and left both queues empty; otherwise the tick ends at that command. When a
  lane is empty its drain returns an empty batch, nothing is run for it and the state is
  unchanged.
\<close>

theorem tick_drains_editor_then_game:
  "on_slate_post_tick ex st =
     (case snd (run_batch ex (items (editor_queue st)) (st\<lparr>editor_queue := \<lparr>items = []\<rparr>\<rparr>)) of
        Some e \<Rightarrow> run_batch ex (items (editor_queue st)) (st\<lparr>editor_queue := \<lparr>items = []\<rparr>\<rparr>)
      | None \<Rightarrow>
          run_batch ex (items (game_queue st))
            ((fst (run_batch ex (items (editor_queue st)) (st\<lparr>editor_queue := \<lparr>items = []\<rparr>\<rparr>)))
               \<lparr>game_queue := \<lparr>items = []\<rparr>\<rparr>))
   \<and> (snd (on_slate_post_tick ex st) = None \<longrightarrow>
        on_slate_post_tick ex st =
          run_batch ex (items (editor_queue st) @ items (game_queue st))
            (st\<lparr>editor_queue := \<lparr>items = []\<rparr>, game_queue := \<lparr>items = []\<rparr>\<rparr>))
   \<and> run_batch ex (c # cs) st =
        (case snd (snd (execute_context ex (ctxs st c) (pyheap st))) of
           None \<Rightarrow> run_batch ex cs
                     (st\<lparr>ctxs := (ctxs st)(c := fst (execute_context ex (ctxs st c) (pyheap st))),
                          pyheap := fst (snd (execute_context ex (ctxs st c) (pyheap st)))\<rparr>)
         | Some e \<Rightarrow> (st\<lparr>ctxs := (ctxs st)(c := fst (execute_context ex (ctxs st c) (pyheap st))),
                          pyheap := fst (snd (execute_context ex (ctxs st c) (pyheap st)))\<rparr>, Some e))
   \<and> (items (queue_of l st) = [] \<longrightarrow>
        fst (drain (queue_of l st)) = [] \<and> drain_queue ex l st = (st, None))
   \<and> (items (editor_queue st) = [] \<and> items (game_queue st) = [] \<longrightarrow>
        on_slate_post_tick ex st = (st, None))"
proof -
  let ?E = "items (editor_queue st)" and ?G = "items (game_queue st)"
  let ?st0 = "st\<lparr>editor_queue := \<lparr>items = []\<rparr>\<rparr>"
  let ?r = "run_batch ex ?E ?st0"
  let ?st1 = "(fst ?r)\<lparr>game_queue := \<lparr>items = []\<rparr>\<rparr>"
  have a: "on_slate_post_tick ex st =
      (case snd ?r of Some e \<Rightarrow> ?r | None \<Rightarrow> run_batch ex ?G ?st1)"
    by (cases "snd ?r") (simp_all add: tick_eq Let_def del: run_batch.simps)
  have b: "snd (on_slate_post_tick ex st) = None \<longrightarrow>
        on_slate_post_tick ex st =
          run_batch ex (?E @ ?G) (st\<lparr>editor_queue := \<lparr>items = []\<rparr>, game_queue := \<lparr>items = []\<rparr>\<rparr>)"
  proof
    assume n: "snd (on_slate_post_tick ex st) = None"
    have rn: "snd ?r = None"
    proof (cases "snd ?r")
      case None
      then show ?thesis .
    next
      case (Some e)
      then have "on_slate_post_tick ex st = ?r" using a by simp
      then show ?thesis using n by simp
    qed
    then have t: "on_slate_post_tick ex st = run_batch ex ?G ?st1" using a by simp
    have g: "run_batch ex ?E (?st0\<lparr>game_queue := \<lparr>items = []\<rparr>\<rparr>) = (?st1, snd ?r)"
      by (rule run_batch_game_queue)
    have "run_batch ex (?E @ ?G) (?st0\<lparr>game_queue := \<lparr>items = []\<rparr>\<rparr>) = run_batch ex ?G ?st1"
      unfolding run_batch_append g using rn by simp
    then show "on_slate_post_tick ex st =
          run_batch ex (?E @ ?G) (st\<lparr>editor_queue := \<lparr>items = []\<rparr>, game_queue := \<lparr>items = []\<rparr>\<rparr>)"
      using t by simp
  qed
  have c: "run_batch ex (c # cs) st =
        (case snd (snd (execute_context ex (ctxs st c) (pyheap st))) of
           None \<Rightarrow> run_batch ex cs
                     (st\<lparr>ctxs := (ctxs st)(c := fst (execute_context ex (ctxs st c) (pyheap st))),
                          pyheap := fst (snd (execute_context ex (ctxs st c) (pyheap st)))\<rparr>)
         | Some e \<Rightarrow> (st\<lparr>ctxs := (ctxs st)(c := fst (execute_context ex (ctxs st c) (pyheap st))),
                          pyheap := fst (snd (execute_context ex (ctxs st c) (pyheap st)))\<rparr>, Some e))"
    by (simp add: run_batch_step Let_def del: run_batch.simps)
  have d: "items (queue_of l st) = [] \<longrightarrow>
        fst (drain (queue_of l st)) = [] \<and> drain_queue ex l st = (st, None)"
    by (simp add: drain_queue_empty drain_def)
  have e: "items (editor_queue st) = [] \<and> items (game_queue st) = [] \<longrightarrow>
        on_slate_post_tick ex st = (st, None)"
  proof
    assume h: "items (editor_queue st) = [] \<and> items (game_queue st) = []"
    then have "drain_queue ex Editor st = (st, None)" and "drain_queue ex Game st = (st, None)"
      by (simp_all add: drain_queue_empty queue_of_def)
    then show "on_slate_post_tick ex st = (st, None)"
      by (simp add: on_slate_post_tick_def)
  qed
  show ?thesis using a b c d e by blast
qed


lemma sample_fault_and_game:
  "run sample_lib [Post (post [(''script'', JStr ''1/0'')]),
                   Post (post [(''mode'', JStr ''game''), (''script'', JStr ''result.update(x=1+1)'')])]
     initial_state
   = \<lparr>editor_queue = \<lparr>items = [0]\<rparr>, game_queue = \<lparr>items = [1]\<rparr>,
      ctxs = (ctxs initial_state)
        (0 := \<lparr>script = JStr ''1/0'', params = 1, timeout = Finite 30, result = 2,
               error = None, done_ev = \<lparr>flag = False, set_calls = 0\<rparr>\<rparr>,
         1 := \<lparr>script = JStr ''result.update(x=1+1)'', params = 3, timeout = Finite 30, result = 4,
               error = None, done_ev = \<lparr>flag = False, set_calls = 0\<rparr>\<rparr>),
      next_cid = 2,
      pyheap = [PyModule ''unreal'', PyData (JObj []), PyData (JObj []), PyData (JObj []),
                PyData (JObj [])]\<rparr>"
  by (simp add: model_defs eval_nat_numeral)

theorem tick_drains_editor_then_game_witness:
  "snd (on_slate_post_tick sample_exec
      (run sample_lib [Post (post [(''script'', JStr ''1/0'')]),
         Post (post [(''mode'', JStr ''game''), (''script'', JStr ''result.update(x=1+1)'')])]
         initial_state)) = None
   \<and> on_slate_post_tick sample_exec
      (run sample_lib [Post (post [(''script'', JStr ''1/0'')]),
         Post (post [(''mode'', JStr ''game''), (''script'', JStr ''result.update(x=1+1)'')])]
         initial_state)
     = run_batch sample_exec ([0] @ [1])
         ((run sample_lib [Post (post [(''script'', JStr ''1/0'')]),
             Post (post [(''mode'', JStr ''game''), (''script'', JStr ''result.update(x=1+1)'')])]
             initial_state)\<lparr>editor_queue := \<lparr>items = []\<rparr>, game_queue := \<lparr>items = []\<rparr>\<rparr>)
   \<and> items (queue_of Editor initial_state) = []
   \<and> items (editor_queue initial_state) = [] \<and> items (game_queue initial_state) = []
   \<and> drain_queue sample_exec Editor initial_state = (initial_state, None)
   \<and> on_slate_post_tick sample_exec initial_state = (initial_state, None)"
proof -
  let ?st = "run sample_lib [Post (post [(''script'', JStr ''1/0'')]),
         Post (post [(''mode'', JStr ''game''), (''script'', JStr ''result.update(x=1+1)'')])]
         initial_state"
  have n: "snd (on_slate_post_tick sample_exec ?st) = None"
    unfolding sample_fault_and_game by (simp add: model_defs)
  have q: "items (editor_queue ?st) = [0]" "items (game_queue ?st) = [1]"
    unfolding sample_fault_and_game by simp_all
  have i: "items (queue_of Editor initial_state) = []"
    "items (editor_queue initial_state) = []" "items (game_queue initial_state) = []"
    by (simp_all add: queue_of_def initial_state_def ThreadSafeQueue_init_def)
  from tick_drains_editor_then_game [of sample_exec ?st 0 "[]" Editor]
  have "snd (on_slate_post_tick sample_exec ?st) = None \<longrightarrow>
        on_slate_post_tick sample_exec ?st =
          run_batch sample_exec (items (editor_queue ?st) @ items (game_queue ?st))
            (?st\<lparr>editor_queue := \<lparr>items = []\<rparr>, game_queue := \<lparr>items = []\<rparr>\<rparr>)"
    by blast
  with n have one: "on_slate_post_tick sample_exec ?st =
          run_batch sample_exec ([0] @ [1])
            (?st\<lparr>editor_queue := \<lparr>items = []\<rparr>, game_queue := \<lparr>items = []\<rparr>\<rparr>)"
    unfolding q by blast
  from tick_drains_editor_then_game [of sample_exec initial_state 0 "[]" Editor] i
  have two: "drain_queue sample_exec Editor initial_state = (initial_state, None)
      \<and> on_slate_post_tick sample_exec initial_state = (initial_state, None)"
    by blast
  from n one i two show ?thesis by blast
qed


section \<open>Timeouts and responses\<close>






subsection \<open>A drained command is run when the commands before it let the loop go on\<close>



subsection \<open>Sample runs with a timeout\<close>


lemma sample_run_timeout:
  "run sample_lib [Post (post [(''script'', JStr ''result.update(x=1+1)'')]), WaitReturns 0]
     initial_state
   = \<lparr>editor_queue = \<lparr>items = [0]\<rparr>, game_queue = \<lparr>items = []\<rparr>,
      ctxs = (ctxs initial_state)(0 := \<lparr>script = JStr ''result.update(x=1+1)'', params = 1,
          timeout = Finite 30, result = 2, error = Some ''Execution timed out after 30.0s'',
          done_ev = \<lparr>flag = False, set_calls = 0\<rparr>\<rparr>),
      next_cid = 1,
      pyheap = [PyModule ''unreal'', PyData (JObj []), PyData (JObj [])]\<rparr>"
  by (simp add: model_defs numeral_2_eq_2)

lemma sample_run_timeout_tick:
  "run sample_lib
     [Post (post [(''script'', JStr ''result.update(x=1+1)'')]), WaitReturns 0, Responds 0, Tick]
     initial_state
   = \<lparr>editor_queue = \<lparr>items = []\<rparr>, game_queue = \<lparr>items = []\<rparr>,
      ctxs = (ctxs initial_state)(0 := \<lparr>script = JStr ''result.update(x=1+1)'', params = 1,
          timeout = Finite 30, result = 2, error = Some ''Execution timed out after 30.0s'',
          done_ev = \<lparr>flag = True, set_calls = 1\<rparr>\<rparr>),
      next_cid = 1,
      pyheap = [PyModule ''unreal'', PyData (JObj []), PyData (JObj [(''x'', JInt 2)])]\<rparr>"
  by (simp add: model_defs numeral_2_eq_2)





subsection \<open>The response after a timeout\<close>





text \<open>
  C9. An error that is not \<^verbatim>\<open>None\<close> stays so over every sequence of requests, returning
  waits, responses and ticks, and a context with an error text answers with a failure
  response ever after. \<^verbatim>\<open>wait\<close> on a timeout writes the timeout text; a dispatcher run
  whose interpreter returns leaves the error as it was, and one whose interpreter raises
  an \<^verbatim>\<open>Exception\<close> writes the traceback. So a timed-out context whose payload then runs
  and returns still answers with the timeout failure.
\<close>

theorem error_never_cleared:
  "(c < next_cid st \<and> error (ctxs st c) \<noteq> None \<longrightarrow> error (ctxs (run lib evs st) c) \<noteq> None)
   \<and> (c < next_cid st \<and> error (ctxs st c) = Some e \<and> e \<noteq> []
        \<longrightarrow> (\<exists>e'. fst (to_response (ctxs (run lib evs st) c)) = Failure e'))
   \<and> wait pstr (Inr False) ctx
       = Inr (ctx\<lparr>error :=
                Some (''Execution timed out after '' @ pstr (JFloat (timeout ctx)) @ ''s'')\<rparr>)
   \<and> (ex (script ctx) (seed_namespace ctx) h = Returned ns h'
        \<longrightarrow> error (fst (execute_context ex ctx h)) = error ctx)
   \<and> (ex (script ctx) (seed_namespace ctx) h = Raised x h' \<and> base x = Exception
        \<longrightarrow> error (fst (execute_context ex ctx h)) = Some (format_exc x))
   \<and> (ex (script ctx) (seed_namespace ctx) h = Returned ns h'
        \<longrightarrow> fst (to_response (fst (execute_context ex
                (ctx\<lparr>error :=
                   Some (''Execution timed out after '' @ pstr (JFloat (timeout ctx)) @ ''s'')\<rparr>)
                h)))
            = Failure (''Execution timed out after '' @ pstr (JFloat (timeout ctx)) @ ''s''))"
proof -
  let ?t = "ctx\<lparr>error :=
              Some (''Execution timed out after '' @ pstr (JFloat (timeout ctx)) @ ''s'')\<rparr>"
  have a: "c < next_cid st \<and> error (ctxs st c) \<noteq> None \<longrightarrow> error (ctxs (run lib evs st) c) \<noteq> None"
    using run_evolves [of c st lib evs] by (auto simp: evolves_def)
  have b: "c < next_cid st \<and> error (ctxs st c) = Some e \<and> e \<noteq> []
        \<longrightarrow> (\<exists>e'. fst (to_response (ctxs (run lib evs st) c)) = Failure e')"
  proof
    assume p: "c < next_cid st \<and> error (ctxs st c) = Some e \<and> e \<noteq> []"
    then have "evolves (ctxs st c) (ctxs (run lib evs st) c)"
      using run_evolves [of c st lib evs] by simp
    with p have "error (ctxs (run lib evs st) c) \<noteq> None"
      and "error (ctxs (run lib evs st) c) \<noteq> Some []"
      by (auto simp: evolves_def)
    then obtain e' where "error (ctxs (run lib evs st) c) = Some e'" and "e' \<noteq> []"
      by (cases "error (ctxs (run lib evs st) c)") auto
    then have "fst (to_response (ctxs (run lib evs st) c)) = Failure e'"
      by (simp add: to_response_def)
    then show "\<exists>e'. fst (to_response (ctxs (run lib evs st) c)) = Failure e'" by blast
  qed
  have w: "wait pstr (Inr False) ctx = Inr ?t"
    by (simp add: wait_def timeout_text_def)
  have r: "ex (script ctx) (seed_namespace ctx) h = Returned ns h'
        \<longrightarrow> error (fst (execute_context ex ctx h)) = error ctx"
    by (simp add: execute_context_error)
  have x: "ex (script ctx) (seed_namespace ctx) h = Raised x h' \<and> base x = Exception
        \<longrightarrow> error (fst (execute_context ex ctx h)) = Some (format_exc x)"
    by (simp add: execute_context_error)
  have t: "ex (script ctx) (seed_namespace ctx) h = Returned ns h'
        \<longrightarrow> fst (to_response (fst (execute_context ex ?t h)))
            = Failure (''Execution timed out after '' @ pstr (JFloat (timeout ctx)) @ ''s'')"
  proof
    assume o: "ex (script ctx) (seed_namespace ctx) h = Returned ns h'"
    have "script ?t = script ctx" and "seed_namespace ?t = seed_namespace ctx"
      by (simp_all add: seed_namespace_def)
    with o have "error (fst (execute_context ex ?t h)) = error ?t"
      by (simp add: execute_context_error)
    then show "fst (to_response (fst (execute_context ex ?t h)))
            = Failure (''Execution timed out after '' @ pstr (JFloat (timeout ctx)) @ ''s'')"
      by (simp add: to_response_def)
  qed
  show ?thesis using a b w r x t by blast
qed

theorem error_never_cleared_witness:
  "0 < next_cid (run sample_lib
        [Post (post [(''script'', JStr ''result.update(x=1+1)'')]), WaitReturns 0] initial_state)
   \<and> error (ctxs (run sample_lib
        [Post (post [(''script'', JStr ''result.update(x=1+1)'')]), WaitReturns 0] initial_state) 0)
       = Some ''Execution timed out after 30.0s''
   \<and> pyheap (run sample_lib [Responds 0, Tick] (run sample_lib
        [Post (post [(''script'', JStr ''result.update(x=1+1)'')]), WaitReturns 0] initial_state))
       = [PyModule ''unreal'', PyData (JObj []), PyData (JObj [(''x'', JInt 2)])]
   \<and> (\<exists>e'. fst (to_response (ctxs (run sample_lib [Responds 0, Tick] (run sample_lib
        [Post (post [(''script'', JStr ''result.update(x=1+1)'')]), WaitReturns 0] initial_state)) 0))
       = Failure e')
   \<and> error (fst (execute_context sample_exec (sample_ctx (JStr ''1/0'')) sample_heap))
       = Some (format_exc (PyExc Exception ''ZeroDivisionError'' ''division by zero'' []))
   \<and> fst (to_response (fst (execute_context sample_exec
        ((sample_ctx (JStr ''result = 5''))\<lparr>error := Some ''Execution timed out after 30.0s''\<rparr>)
        sample_heap)))
       = Failure ''Execution timed out after 30.0s''"
proof -
  let ?p = "Post (post [(''script'', JStr ''result.update(x=1+1)'')])"
  let ?st = "run sample_lib [?p, WaitReturns 0] initial_state"
  have n: "0 < next_cid ?st" and e: "error (ctxs ?st 0) = Some ''Execution timed out after 30.0s''"
    unfolding sample_run_timeout by simp_all
  have ne: "''Execution timed out after 30.0s'' \<noteq> []" by simp
  have h: "pyheap (run sample_lib [Responds 0, Tick] ?st)
       = [PyModule ''unreal'', PyData (JObj []), PyData (JObj [(''x'', JInt 2)])]"
    unfolding sample_run_timeout by (simp add: model_defs)
  have r1: "sample_exec (script (sample_ctx (JStr ''1/0''))) (seed_namespace (sample_ctx (JStr ''1/0'')))
              sample_heap
            = Raised (PyExc Exception ''ZeroDivisionError'' ''division by zero'' []) sample_heap"
    by (simp add: sample_exec_def sample_ctx_def)
  have r2: "sample_exec (script (sample_ctx (JStr ''result = 5'')))
              (seed_namespace (sample_ctx (JStr ''result = 5''))) sample_heap
            = Returned ((seed_namespace (sample_ctx (JStr ''result = 5'')))(''result'' \<mapsto> length sample_heap))
                (sample_heap @ [PyData (JInt 5)])"
    by (simp add: sample_exec_def sample_ctx_def)
  have p: "py_str sample_lib (JFloat (timeout (sample_ctx (JStr ''result = 5'')))) = ''30.0''"
    by (simp add: sample_lib_def sample_ctx_def)
  from error_never_cleared
         [of 0 ?st sample_lib "[Responds 0, Tick]" "''Execution timed out after 30.0s''"
             "py_str sample_lib" "sample_ctx (JStr ''1/0'')" sample_exec sample_heap _ _
             "PyExc Exception ''ZeroDivisionError'' ''division by zero'' []"]
       n e ne r1
  have one: "(\<exists>e'. fst (to_response (ctxs (run sample_lib [Responds 0, Tick] ?st) 0)) = Failure e')
      \<and> error (fst (execute_context sample_exec (sample_ctx (JStr ''1/0'')) sample_heap))
       = Some (format_exc (PyExc Exception ''ZeroDivisionError'' ''division by zero'' []))"
    by simp
  from error_never_cleared
         [of 0 ?st sample_lib "[Responds 0, Tick]" "''Execution timed out after 30.0s''"
             "py_str sample_lib" "sample_ctx (JStr ''result = 5'')" sample_exec sample_heap
             "(seed_namespace (sample_ctx (JStr ''result = 5'')))(''result'' \<mapsto> length sample_heap)"
             "sample_heap @ [PyData (JInt 5)]"]
       r2 p
  have two: "fst (to_response (fst (execute_context sample_exec
        ((sample_ctx (JStr ''result = 5''))\<lparr>error := Some ''Execution timed out after 30.0s''\<rparr>)
        sample_heap)))
       = Failure ''Execution timed out after 30.0s''"
    by simp
  from n e h one two show ?thesis by blast
qed


section \<open>The request handler\<close>

subsection \<open>Requests the handler does not enqueue\<close>

lemma do_POST_begin_parse_error:
  "path req = ''/execute'' \<Longrightarrow> body req = Inl e \<Longrightarrow>
     do_POST_begin lib req st = (Responded 400 (OutcomeBody (Failure (''Bad request: '' @ e))), st)"
  by (simp add: do_POST_begin_def)

lemma do_POST_begin_unknown_mode:
  assumes "path req = ''/execute''" and "body req = Inr (JObj d)"
    and "py_float (str_to_float lib) (dict_get d ''timeout'' (JInt 30)) = Inr t"
    and "dict_get d ''mode'' (JStr ''editor'') \<noteq> JStr ''editor''"
    and "dict_get d ''mode'' (JStr ''editor'') \<noteq> JStr ''game''"
  shows "do_POST_begin lib req st =
           (Responded 400 (OutcomeBody (Failure
              (''Unknown mode: '' @ py_str lib (dict_get d ''mode'' (JStr ''editor''))
               @ ''. Use 'editor' or 'game'.''))), st)"
  using assms by (simp add: do_POST_begin_def Let_def)

lemma do_POST_begin_not_enqueued:
  "(\<forall>c. fst (do_POST_begin lib req st) \<noteq> Enqueued c) \<Longrightarrow> snd (do_POST_begin lib req st) = st"
  using do_POST_begin_cases [of lib req st] by auto

text \<open>
  C5 at two requests. With mode \<^verbatim>\<open>unknown\<close> and timeout \<^verbatim>\<open>null\<close>, \<^verbatim>\<open>float(None)\<close> raises
  \<^verbatim>\<open>TypeError\<close> before the mode is checked; with the body \<^verbatim>\<open>[]\<close>, \<^verbatim>\<open>body.get\<close> raises
  \<^verbatim>\<open>AttributeError\<close>. Both lines stand outside the \<^verbatim>\<open>try\<close>, so the handler ends with
  the exception and sends no response, where the claim has a 400 response. Nothing is
  enqueued and the state is unchanged.
\<close>

theorem bad_request_without_response:
  "do_POST_begin lib
     \<lparr>path = ''/execute'', body = Inr (JObj [(''mode'', JStr ''unknown''), (''timeout'', JNull)])\<rparr> st
     = (Unhandled TypeError, st)
   \<and> do_POST_begin lib \<lparr>path = ''/execute'', body = Inr (JArr [])\<rparr> st
     = (Unhandled AttributeError, st)"
  by (simp add: do_POST_begin_def dict_get_def py_float_def Let_def)

theorem bad_request_without_response_witness:
  "do_POST_begin sample_lib
     \<lparr>path = ''/execute'', body = Inr (JObj [(''mode'', JStr ''unknown''), (''timeout'', JNull)])\<rparr>
     initial_state
     = (Unhandled TypeError, initial_state)
   \<and> do_POST_begin sample_lib \<lparr>path = ''/execute'', body = Inr (JArr [])\<rparr> initial_state
     = (Unhandled AttributeError, initial_state)
   \<and> do_POST_begin sample_lib
     \<lparr>path = ''/execute'', body = Inr (JObj [(''mode'', JStr ''unknown'')])\<rparr> initial_state
     = (Responded 400 (OutcomeBody (Failure ''Unknown mode: unknown. Use 'editor' or 'game'.'')),
        initial_state)"
proof -
  have "do_POST_begin sample_lib
     \<lparr>path = ''/execute'', body = Inr (JObj [(''mode'', JStr ''unknown'')])\<rparr> initial_state
     = (Responded 400 (OutcomeBody (Failure ''Unknown mode: unknown. Use 'editor' or 'game'.'')),
        initial_state)"
    by (simp add: do_POST_begin_def dict_get_def py_float_def Let_def sample_lib_def)
  with bad_request_without_response [of sample_lib initial_state] show ?thesis by blast
qed

text \<open>
  C10 as stated fails for a body that is a JSON object without a mode key whose timeout
  does not convert: with \<^verbatim>\<open>{"timeout": null}\<close>, \<^verbatim>\<open>float(None)\<close> raises \<^verbatim>\<open>TypeError\<close> on
  line 168, before the context is created, so the request is not enqueued on the editor
  lane and the handler sends no response.
\<close>

theorem missing_mode_bad_timeout_counterexample:
  "map_of [(''timeout'', JNull)] ''mode'' = None
   \<and> do_POST_begin sample_lib (post [(''timeout'', JNull)]) initial_state
     = (Unhandled TypeError, initial_state)
   \<and> items (editor_queue initial_state) = []"
  by (simp add: do_POST_begin_def post_def dict_get_def py_float_def Let_def initial_state_def
      ThreadSafeQueue_init_def)

text \<open>
  C10, amended. A request to \<^verbatim>\<open>/execute\<close> whose body is a JSON object, whose timeout
  (given or by default) converts with \<^verbatim>\<open>float\<close>, and whose mode is absent, \<^verbatim>\<open>editor\<close>
  or \<^verbatim>\<open>game\<close>, is enqueued as a new context. An absent mode puts it at the tail of the editor queue and
  leaves the game queue alone; an absent script is the empty string; absent parameters
  are an empty dict; an absent timeout is 30. The new context has no error, an unset
  flag and a new empty result dict.
\<close>

theorem missing_fields_default:
  assumes "path req = ''/execute''" and "body req = Inr (JObj d)"
    and "py_float (str_to_float lib) (dict_get d ''timeout'' (JInt 30)) = Inr t"
    and "map_of d ''mode'' \<in> {None, Some (JStr ''editor''), Some (JStr ''game'')}"
  shows "fst (do_POST_begin lib req st) = Enqueued (next_cid st)
   \<and> next_cid (snd (do_POST_begin lib req st)) = Suc (next_cid st)
   \<and> (map_of d ''mode'' = None \<longrightarrow>
        items (editor_queue (snd (do_POST_begin lib req st)))
          = items (editor_queue st) @ [next_cid st]
        \<and> game_queue (snd (do_POST_begin lib req st)) = game_queue st)
   \<and> (map_of d ''script'' = None \<longrightarrow>
        script (ctxs (snd (do_POST_begin lib req st)) (next_cid st)) = JStr '''')
   \<and> (map_of d ''params'' = None \<longrightarrow>
        pyheap (snd (do_POST_begin lib req st))
          ! params (ctxs (snd (do_POST_begin lib req st)) (next_cid st)) = PyData (JObj []))
   \<and> (map_of d ''timeout'' = None \<longrightarrow>
        timeout (ctxs (snd (do_POST_begin lib req st)) (next_cid st)) = Finite 30)
   \<and> timeout (ctxs (snd (do_POST_begin lib req st)) (next_cid st)) = t
   \<and> error (ctxs (snd (do_POST_begin lib req st)) (next_cid st)) = None
   \<and> \<not> flag (done_ev (ctxs (snd (do_POST_begin lib req st)) (next_cid st)))
   \<and> pyheap (snd (do_POST_begin lib req st))
        ! result (ctxs (snd (do_POST_begin lib req st)) (next_cid st)) = PyData (JObj [])"
proof -
  let ?mode = "dict_get d ''mode'' (JStr ''editor'')"
  let ?h1 = "pyheap st @ [PyData (dict_get d ''params'' (JObj []))]"
  let ?ctx = "\<lparr>script = dict_get d ''script'' (JStr ''''), params = length (pyheap st),
               timeout = t, result = Suc (length (pyheap st)), error = None,
               done_ev = Event_init\<rparr>"
  let ?st1 = "st\<lparr>ctxs := (ctxs st)(next_cid st := ?ctx), next_cid := Suc (next_cid st),
                 pyheap := ?h1 @ [PyData (JObj [])]\<rparr>"
  have m: "?mode = JStr ''editor'' \<or> ?mode = JStr ''game''"
    using assms(4) by (auto simp: dict_get_def)
  have eq: "do_POST_begin lib req st =
      (Enqueued (next_cid st),
       if ?mode = JStr ''editor''
       then ?st1\<lparr>editor_queue := push (next_cid st) (editor_queue st)\<rparr>
       else ?st1\<lparr>game_queue := push (next_cid st) (game_queue st)\<rparr>)"
    using assms(1,2,3) m
    by (auto simp add: do_POST_begin_def Let_def heap_new_def ExecutionContext_init_def)
  have c: "ctxs (snd (do_POST_begin lib req st)) (next_cid st) = ?ctx"
    and h: "pyheap (snd (do_POST_begin lib req st)) = ?h1 @ [PyData (JObj [])]"
    and n: "next_cid (snd (do_POST_begin lib req st)) = Suc (next_cid st)"
    unfolding eq by simp_all
  have lane: "map_of d ''mode'' = None \<longrightarrow>
        items (editor_queue (snd (do_POST_begin lib req st)))
          = items (editor_queue st) @ [next_cid st]
        \<and> game_queue (snd (do_POST_begin lib req st)) = game_queue st"
    unfolding eq by (simp add: dict_get_def push_def)
  have tm: "map_of d ''timeout'' = None \<longrightarrow> t = Finite 30"
    using assms(3) by (auto simp: dict_get_def py_float_def)
  have par: "map_of d ''params'' = None \<longrightarrow> (?h1 @ [PyData (JObj [])]) ! length (pyheap st) = PyData (JObj [])"
    by (simp add: dict_get_def nth_append)
  have res: "(?h1 @ [PyData (JObj [])]) ! Suc (length (pyheap st)) = PyData (JObj [])"
    by (simp add: nth_append)
  show ?thesis
    unfolding c h using eq n lane tm par res
    by (simp add: dict_get_def Event_init_def)
qed

theorem missing_fields_default_witness:
  "path (post []) = ''/execute'' \<and> body (post []) = Inr (JObj [])
   \<and> py_float (str_to_float sample_lib) (dict_get [] ''timeout'' (JInt 30)) = Inr (Finite 30)
   \<and> fst (do_POST_begin sample_lib (post []) initial_state) = Enqueued 0
   \<and> items (editor_queue (snd (do_POST_begin sample_lib (post []) initial_state))) = [0]
   \<and> items (game_queue (snd (do_POST_begin sample_lib (post []) initial_state))) = []
   \<and> script (ctxs (snd (do_POST_begin sample_lib (post []) initial_state)) 0) = JStr []
   \<and> timeout (ctxs (snd (do_POST_begin sample_lib (post []) initial_state)) 0) = Finite 30
   \<and> pyheap (snd (do_POST_begin sample_lib (post []) initial_state))
        ! params (ctxs (snd (do_POST_begin sample_lib (post []) initial_state)) 0) = PyData (JObj [])"
proof -
  have p: "path (post []) = ''/execute''" and b: "body (post []) = Inr (JObj [])"
    by (simp_all add: post_def)
  have t: "py_float (str_to_float sample_lib) (dict_get [] ''timeout'' (JInt 30)) = Inr (Finite 30)"
    by (simp add: py_float_def dict_get_def)
  have m: "map_of ([] :: (string \<times> json) list) ''mode'' \<in> {None, Some (JStr ''editor''), Some (JStr ''game'')}"
    by simp
  have z: "next_cid initial_state = 0" "items (editor_queue initial_state) = []"
    "items (game_queue initial_state) = []"
    by (simp_all add: initial_state_def ThreadSafeQueue_init_def)
  from missing_fields_default [OF p b t m, of initial_state] z
  have "fst (do_POST_begin sample_lib (post []) initial_state) = Enqueued 0
   \<and> items (editor_queue (snd (do_POST_begin sample_lib (post []) initial_state))) = [0]
   \<and> items (game_queue (snd (do_POST_begin sample_lib (post []) initial_state))) = []
   \<and> script (ctxs (snd (do_POST_begin sample_lib (post []) initial_state)) 0) = JStr []
   \<and> timeout (ctxs (snd (do_POST_begin sample_lib (post []) initial_state)) 0) = Finite 30
   \<and> pyheap (snd (do_POST_begin sample_lib (post []) initial_state))
        ! params (ctxs (snd (do_POST_begin sample_lib (post []) initial_state)) 0) = PyData (JObj [])"
    by simp
  with p b t show ?thesis by blast
qed

end
